theory Spec2Isabelle
  imports Main "HOL-Library.Char_ord" "HOL-Library.List_Lexorder"
begin

section \<open>The orchestration engine of bbox (src/src/bbox.ts)\<close>

text \<open>
  The class \<open>Bbox\<close> of \<open>src/src/bbox.ts\<close> is embedded as functions on an explicit
  machine state. The two collaborators of the class (\<open>ProcessManager\<close> and
  \<open>BboxDiscovery\<close>) are not part of the engine: every call made on them is appended to
  a trace, and what a call answers is read from a parameter \<open>W\<close>, which may depend on
  everything that happened before. The collaborators and the functions given as
  runnables are taken to leave the registry, the module states and the queue of the
  context alone; output on the console is part of the trace.
\<close>

subsection \<open>Data model\<close>

datatype ServiceProcessStatus = Unknown | Online | Offline

text \<open>
  \<open>Runnable = string | RunnableFn\<close>, \<open>RunnableSpec = Runnable | Runnable[]\<close>. A
  function is named by a number; what running it does is the collaborators' business.
\<close>

datatype Runnable = Command string | Callback nat | Sequence "Runnable list"

text \<open>
  Values of type \<open>any\<close> as far as the engine looks at them: their truthiness.
  \<open>JObject\<close> stands for any object or function, told apart by a label.
\<close>

datatype jsval = JUndefined | JNull | JBool bool | JNum int | JStr string | JObject string

fun truthy :: "jsval \<Rightarrow> bool" where
  "truthy JUndefined = False"
| "truthy JNull = False"
| "truthy (JBool b) = b"
| "truthy (JNum n) = (n \<noteq> 0)"
| "truthy (JStr s) = (s \<noteq> [])"
| "truthy (JObject label) = True"

text \<open>
  The truthiness of a runnable: a string is falsy when it is empty, a function and an
  array are always truthy.
\<close>

fun truthy_runnable :: "Runnable \<Rightarrow> bool" where
  "truthy_runnable (Command c) = (c \<noteq> [])"
| "truthy_runnable (Callback f) = True"
| "truthy_runnable (Sequence rs) = True"

text \<open>
  An object used as a dictionary is the list of its own properties, the first binding
  of a key being the one that counts. \<open>Object.keys\<close> lists every key once.
\<close>

type_synonym 'v obj = "(string \<times> 'v) list"

definition Object_keys :: "'v obj \<Rightarrow> string list" where
  "Object_keys kvs = remdups (map fst kvs)"

text \<open>
  Reading \<open>object[key]\<close>: an own property, else what a plain object inherits from
  \<open>Object.prototype\<close> (functions, and the prototype itself under \<open>__proto__\<close>), else
  \<open>undefined\<close>.
\<close>

definition Object_prototype :: "string list" where
  "Object_prototype =
     [''constructor'', ''hasOwnProperty'', ''isPrototypeOf'', ''propertyIsEnumerable'',
      ''toLocaleString'', ''toString'', ''valueOf'', ''__proto__'',
      ''__defineGetter__'', ''__defineSetter__'', ''__lookupGetter__'', ''__lookupSetter__'']"

datatype 'v property = Own 'v | Inherited string | Undefined

definition get_property :: "'v obj \<Rightarrow> string \<Rightarrow> 'v property" where
  "get_property kvs key =
     (case map_of kvs key of
        Some v \<Rightarrow> Own v
      | None \<Rightarrow> if key \<in> set Object_prototype then Inherited key else Undefined)"

record ServiceSpec =
  ss_name :: string
  ss_env :: "jsval obj"
  ss_dependencies :: "string list option"
  ss_valueProviders :: "string obj option"
  ss_values :: "jsval obj option"

record ModuleState =
  ranMigrations :: "string list"
  ranAllMigrations :: bool
  built :: bool

record ModuleSpec =
  ms_name :: string
  ms_build :: "Runnable option"
  ms_migrations :: "Runnable obj option"

text \<open>
  A \<open>Module\<close> object and its \<open>Service\<close> objects point at each other
  (\<open>module.services\<close>, \<open>service.module\<close>). \<open>ModuleCore\<close> is the \<open>Module\<close> object
  without its \<open>services\<close>: \<open>m_ref\<close> is the identity of the object, and the mutable
  \<open>module.state\<close> lives in the store of the machine under that identity, so that every
  holder of the object sees the same state. \<open>service.state\<close> is never read or written
  by the engine and is left out.
\<close>

record ModuleCore =
  m_ref :: nat
  m_name :: string
  m_spec :: ModuleSpec

record Service =
  s_module :: ModuleCore
  s_name :: string
  s_spec :: ServiceSpec

record Module =
  m_core :: ModuleCore
  m_services :: "Service list"

text \<open>\<open>Partial<ModuleState>\<close> and \<open>Partial<ServiceState>\<close>: every field may be undefined.\<close>

record PartialModuleState =
  p_ranMigrations :: "string list option"
  p_ranAllMigrations :: "bool option"
  p_built :: "bool option"

record PartialServiceState =
  p_processStatus :: "ServiceProcessStatus option"

text \<open>One element of \<open>ctx.stagedStates\<close>: both fields are optional in the source.\<close>

record StagedState =
  st_service :: "(Service \<times> PartialServiceState) option"
  st_module :: "(ModuleCore \<times> PartialModuleState) option"

subsection \<open>Errors, effects and the machine\<close>

datatype error =
    ModulesNotInitialized
  | ModuleNotFound string "string list"
  | ServiceNotFound string
  | NoBuildAction
  | NoMigrationsSpecified
  | UnhandledStatus ServiceProcessStatus
  | ValueProviderNotFound string
  | External string
  | CouldNotGetValue string error

type_synonym 'a result = "error + 'a"

datatype action =
    RunInteractive ModuleCore string
  | RunFn ModuleCore nat
  | StartAndWait Service
  | StopAndWait Service
  | Run ModuleCore jsval "jsval obj"
  | FindServiceProcess Service

datatype logline =
    ApplyingModuleState ModuleCore PartialModuleState
  | ApplyingServiceState Service PartialServiceState
  | NoNewMigrations
  | Migrating string
  | MigrationFailed string
  | AllMigrationsApplied
  | LoggedError error
  | LoggedValue jsval
  | ListLine string string jsval bool "string list"

datatype event =
    Call action
  | SaveState ModuleCore ModuleState
  | Console logline

text \<open>
  The collaborators: given what happened so far, a call either throws (\<open>Inl\<close> the
  message) or returns a value. \<open>saveState\<close> is taken to return always.
\<close>

type_synonym collab = "event list \<Rightarrow> action \<Rightarrow> string + jsval"

record machine =
  modules :: "Module list option"
  mstate :: "nat \<Rightarrow> ModuleState"
  stagedStates :: "StagedState list"
  trace :: "event list"

definition state_of :: "machine \<Rightarrow> ModuleCore \<Rightarrow> ModuleState" where
  "state_of s m = mstate s (m_ref m)"

definition set_state :: "ModuleCore \<Rightarrow> ModuleState \<Rightarrow> machine \<Rightarrow> machine" where
  "set_state m st s = s\<lparr>mstate := (mstate s)(m_ref m := st)\<rparr>"

definition emit :: "event \<Rightarrow> machine \<Rightarrow> machine" where
  "emit e s = s\<lparr>trace := trace s @ [e]\<rparr>"

definition call :: "collab \<Rightarrow> action \<Rightarrow> event list \<Rightarrow> jsval result \<times> event list" where
  "call W a tr =
     (case W tr a of
        Inl msg \<Rightarrow> (Inl (External msg), tr @ [Call a])
      | Inr v \<Rightarrow> (Inr v, tr @ [Call a]))"

subsection \<open>Migration tracking\<close>

text \<open>lodash \<open>difference(array, values)\<close>: the elements of \<open>array\<close> not in \<open>values\<close>, in order.\<close>

definition difference :: "'a list \<Rightarrow> 'a list \<Rightarrow> 'a list" where
  "difference xs ys = filter (\<lambda>x. x \<notin> set ys) xs"

definition getNotAppliedMigrations :: "machine \<Rightarrow> ModuleCore \<Rightarrow> string list" where
  "getNotAppliedMigrations s m =
     (case ms_migrations (m_spec m) of
        None \<Rightarrow> []
      | Some migs \<Rightarrow>
          (let migrationIds = sort (Object_keys migs)
           in difference migrationIds (ranMigrations (state_of s m))))"

subsection \<open>Running a runnable\<close>

text \<open>
  \<open>runInteractive\<close>: an array is run element by element, a function is called with the
  module, a string goes to \<open>processManager.runInteractive\<close>. The first failure ends it.
\<close>

fun runInteractive :: "collab \<Rightarrow> ModuleCore \<Rightarrow> Runnable \<Rightarrow> event list \<Rightarrow> unit result \<times> event list"
  and runInteractive_each :: "collab \<Rightarrow> ModuleCore \<Rightarrow> Runnable list \<Rightarrow> event list \<Rightarrow> unit result \<times> event list"
where
  "runInteractive W m (Sequence rs) tr = runInteractive_each W m rs tr"
| "runInteractive W m (Callback f) tr =
     (case call W (RunFn m f) tr of
        (Inl e, tr') \<Rightarrow> (Inl e, tr')
      | (Inr _, tr') \<Rightarrow> (Inr (), tr'))"
| "runInteractive W m (Command c) tr =
     (case call W (RunInteractive m c) tr of
        (Inl e, tr') \<Rightarrow> (Inl e, tr')
      | (Inr _, tr') \<Rightarrow> (Inr (), tr'))"
| "runInteractive_each W m [] tr = (Inr (), tr)"
| "runInteractive_each W m (r # rs) tr =
     (case runInteractive W m r tr of
        (Inl e, tr') \<Rightarrow> (Inl e, tr')
      | (Inr _, tr') \<Rightarrow> runInteractive_each W m rs tr')"

subsection \<open>Build and migrations\<close>

definition runBuild :: "collab \<Rightarrow> ModuleCore \<Rightarrow> machine \<Rightarrow> unit result \<times> machine" where
  "runBuild W m s =
     (case ms_build (m_spec m) of
        None \<Rightarrow> (Inl NoBuildAction, s)
      | Some r \<Rightarrow>
          if \<not> truthy_runnable r then (Inl NoBuildAction, s)
          else
            (case runInteractive W m r (trace s) of
               (Inl e, tr) \<Rightarrow> (Inl e, s\<lparr>trace := tr\<rparr>)
             | (Inr _, tr) \<Rightarrow>
                 (let st = (state_of s m)\<lparr>built := True\<rparr>
                  in (Inr (), emit (SaveState m st) (set_state m st (s\<lparr>trace := tr\<rparr>))))))"

text \<open>
  The loop of \<open>runMigrate\<close> over the pending ids. Every id comes from the keys of
  \<open>migs\<close>, so the lookup finds a runnable; the other branch is there for totality.
\<close>

fun migrateEach :: "collab \<Rightarrow> ModuleCore \<Rightarrow> Runnable obj \<Rightarrow> string list \<Rightarrow> machine \<Rightarrow> unit result \<times> machine" where
  "migrateEach W m migs [] s = (Inr (), s)"
| "migrateEach W m migs (migId # rest) s =
     (let s1 = emit (Console (Migrating migId)) s in
      case map_of migs migId of
        None \<Rightarrow> (Inl (External []), emit (Console (MigrationFailed migId)) s1)
      | Some r \<Rightarrow>
          (case runInteractive W m r (trace s1) of
             (Inl e, tr) \<Rightarrow> (Inl e, emit (Console (MigrationFailed migId)) (s1\<lparr>trace := tr\<rparr>))
           | (Inr _, tr) \<Rightarrow>
               (let st = (state_of s1 m)\<lparr>ranMigrations := ranMigrations (state_of s1 m) @ [migId]\<rparr>
                in migrateEach W m migs rest
                     (emit (SaveState m st) (set_state m st (s1\<lparr>trace := tr\<rparr>))))))"

definition runMigrate :: "collab \<Rightarrow> ModuleCore \<Rightarrow> machine \<Rightarrow> unit result \<times> machine" where
  "runMigrate W m s =
     (case ms_migrations (m_spec m) of
        None \<Rightarrow> (Inl NoMigrationsSpecified, s)
      | Some migs \<Rightarrow>
          (let diff = getNotAppliedMigrations s m in
           if diff = [] then (Inr (), emit (Console NoNewMigrations) s)
           else
             (case migrateEach W m migs diff s of
                (Inl e, s1) \<Rightarrow> (Inl e, s1)
              | (Inr _, s1) \<Rightarrow>
                  (let st = (state_of s1 m)\<lparr>ranAllMigrations := True\<rparr>
                   in (Inr (), emit (Console AllMigrationsApplied)
                                 (emit (SaveState m st) (set_state m st s1)))))))"

subsection \<open>Staging\<close>

definition stageServiceState :: "Service \<Rightarrow> PartialServiceState \<Rightarrow> machine \<Rightarrow> machine" where
  "stageServiceState service st s =
     s\<lparr>stagedStates := stagedStates s @ [\<lparr>st_service = Some (service, st), st_module = None\<rparr>]\<rparr>"

definition stageModuleState :: "ModuleCore \<Rightarrow> PartialModuleState \<Rightarrow> machine \<Rightarrow> machine" where
  "stageModuleState m st s =
     s\<lparr>stagedStates := stagedStates s @ [\<lparr>st_service = None, st_module = Some (m, st)\<rparr>]\<rparr>"

definition want_built :: PartialModuleState where
  "want_built = \<lparr>p_ranMigrations = None, p_ranAllMigrations = None, p_built = Some True\<rparr>"

definition want_ranAllMigrations :: PartialModuleState where
  "want_ranAllMigrations = \<lparr>p_ranMigrations = None, p_ranAllMigrations = Some True, p_built = None\<rparr>"

definition want_status :: "ServiceProcessStatus \<Rightarrow> PartialServiceState" where
  "want_status st = \<lparr>p_processStatus = Some st\<rparr>"

definition stageBuild :: "ModuleCore \<Rightarrow> machine \<Rightarrow> machine" where
  "stageBuild m s =
     stageModuleState m want_built (set_state m ((state_of s m)\<lparr>built := False\<rparr>) s)"

definition stageBuildIfNeeded :: "ModuleCore \<Rightarrow> machine \<Rightarrow> machine" where
  "stageBuildIfNeeded m s =
     (if built (state_of s m)
         \<or> (case ms_build (m_spec m) of None \<Rightarrow> True | Some r \<Rightarrow> \<not> truthy_runnable r)
      then s
      else stageModuleState m want_built s)"

definition stageMigrationsIfNeeded :: "ModuleCore \<Rightarrow> machine \<Rightarrow> machine" where
  "stageMigrationsIfNeeded m s =
     (let migrations = getNotAppliedMigrations s m in
      if migrations = [] then s
      else stageModuleState m want_ranAllMigrations s)"

definition stageStart :: "Service \<Rightarrow> machine \<Rightarrow> machine" where
  "stageStart service s =
     stageServiceState service (want_status Online)
       (stageMigrationsIfNeeded (s_module service)
          (stageBuildIfNeeded (s_module service) s))"

subsection \<open>The registry\<close>

definition getAllModules :: "machine \<Rightarrow> Module list result" where
  "getAllModules s =
     (case modules s of None \<Rightarrow> Inl ModulesNotInitialized | Some ms \<Rightarrow> Inr ms)"

definition getModule :: "string \<Rightarrow> machine \<Rightarrow> Module result" where
  "getModule name s =
     (case getAllModules s of
        Inl e \<Rightarrow> Inl e
      | Inr ms \<Rightarrow>
          (case find (\<lambda>m. m_name (m_core m) = name) ms of
             None \<Rightarrow> Inl (ModuleNotFound name (map (\<lambda>m. m_name (m_core m)) ms))
           | Some m \<Rightarrow> Inr m))"

fun findService :: "string \<Rightarrow> Module list \<Rightarrow> (Module \<times> Service) result" where
  "findService serviceName [] = Inl (ServiceNotFound serviceName)"
| "findService serviceName (m # ms) =
     (case find (\<lambda>service. s_name service = serviceName) (m_services m) of
        Some service \<Rightarrow> Inr (m, service)
      | None \<Rightarrow> findService serviceName ms)"

definition getService :: "string \<Rightarrow> machine \<Rightarrow> (Module \<times> Service) result" where
  "getService serviceName s =
     (case getAllModules s of
        Inl e \<Rightarrow> Inl e
      | Inr ms \<Rightarrow> findService serviceName ms)"

text \<open>The messages of the errors, as the source's template strings build them.\<close>

fun join :: "string \<Rightarrow> string list \<Rightarrow> string" where
  "join sep [] = []"
| "join sep [x] = x"
| "join sep (x # y # ys) = x @ sep @ join sep (y # ys)"

fun status_name :: "ServiceProcessStatus \<Rightarrow> string" where
  "status_name Unknown = ''Unknown''"
| "status_name Online = ''Online''"
| "status_name Offline = ''Offline''"

fun message :: "error \<Rightarrow> string" where
  "message ModulesNotInitialized = ''Modules not initialized''"
| "message (ModuleNotFound name names) =
     ''Module '' @ [CHR 0x22] @ name @ [CHR 0x22] @ '' not found. All discovered modules: ''
       @ join '', '' names"
| "message (ServiceNotFound serviceName) =
     ''Service '' @ [CHR 0x22] @ serviceName @ [CHR 0x22] @ '' not found.''"
| "message NoBuildAction = ''Module has not build action specified''"
| "message NoMigrationsSpecified = ''Module has migrations specified''"
| "message (UnhandledStatus st) = ''Unhandled ServiceProcessStatus '' @ status_name st"
| "message (ValueProviderNotFound providerName) =
     ''Value provider '' @ providerName @ '' not found''"
| "message (External msg) = msg"
| "message (CouldNotGetValue valueName e) =
     ''Could not get '' @ valueName @ '' value: '' @ message e"

subsection \<open>Applying the staged states\<close>

definition applyModuleState :: "collab \<Rightarrow> ModuleCore \<times> PartialModuleState \<Rightarrow> machine \<Rightarrow> unit result \<times> machine" where
  "applyModuleState W p s =
     (case p of (m, st) \<Rightarrow>
        (let s0 = emit (Console (ApplyingModuleState m st)) s;
             afterBuild =
               (case p_built st of
                  None \<Rightarrow> (Inr (), s0)
                | Some b \<Rightarrow>
                    if b \<and> \<not> built (state_of s0 m) then runBuild W m s0 else (Inr (), s0))
         in case afterBuild of
              (Inl e, s1) \<Rightarrow> (Inl e, s1)
            | (Inr _, s1) \<Rightarrow>
                (case p_ranAllMigrations st of
                   None \<Rightarrow> (Inr (), s1)
                 | Some _ \<Rightarrow> runMigrate W m s1)))"

definition applyServiceState :: "collab \<Rightarrow> Service \<times> PartialServiceState \<Rightarrow> machine \<Rightarrow> unit result \<times> machine" where
  "applyServiceState W p s =
     (case p of (service, st) \<Rightarrow>
        (let s0 = emit (Console (ApplyingServiceState service st)) s
         in case p_processStatus st of
              None \<Rightarrow> (Inr (), s0)
            | Some Online \<Rightarrow>
                (case call W (StartAndWait service) (trace s0) of
                   (Inl e, tr) \<Rightarrow> (Inl e, s0\<lparr>trace := tr\<rparr>)
                 | (Inr _, tr) \<Rightarrow> (Inr (), s0\<lparr>trace := tr\<rparr>))
            | Some Offline \<Rightarrow>
                (case call W (StopAndWait service) (trace s0) of
                   (Inl e, tr) \<Rightarrow> (Inl e, s0\<lparr>trace := tr\<rparr>)
                 | (Inr _, tr) \<Rightarrow> (Inr (), s0\<lparr>trace := tr\<rparr>))
            | Some Unknown \<Rightarrow> (Inl (UnhandledStatus Unknown), s0)))"

text \<open>The body of the loop of \<open>executeStaged\<close>: the module part, then the service part.\<close>

definition applyStaged :: "collab \<Rightarrow> StagedState \<Rightarrow> machine \<Rightarrow> unit result \<times> machine" where
  "applyStaged W moduleOrService s =
     (case (case st_module moduleOrService of
              None \<Rightarrow> (Inr (), s)
            | Some p \<Rightarrow> applyModuleState W p s) of
        (Inl e, s1) \<Rightarrow> (Inl e, s1)
      | (Inr _, s1) \<Rightarrow>
          (case st_service moduleOrService of
             None \<Rightarrow> (Inr (), s1)
           | Some p \<Rightarrow> applyServiceState W p s1))"

fun executeEach :: "collab \<Rightarrow> StagedState list \<Rightarrow> machine \<Rightarrow> unit result \<times> machine" where
  "executeEach W [] s = (Inr (), s)"
| "executeEach W (moduleOrService # rest) s =
     (case applyStaged W moduleOrService s of
        (Inl e, s1) \<Rightarrow> (Inl e, s1)
      | (Inr _, s1) \<Rightarrow> executeEach W rest s1)"

definition executeStaged :: "collab \<Rightarrow> machine \<Rightarrow> unit result \<times> machine" where
  "executeStaged W s = executeEach W (stagedStates s) s"

subsection \<open>Start dependencies\<close>

text \<open>
  \<open>stageStartDependenciesIfNeeded\<close> calls itself for every dependency and nothing
  bounds the depth, so the model counts the depth down: \<open>None\<close> is a call that
  needs more nested calls than the fuel allows (a dependency cycle never returns).
\<close>

fun stageDependencies ::
  "(Service \<Rightarrow> machine \<Rightarrow> (unit result \<times> machine) option) \<Rightarrow> string list \<Rightarrow> machine
     \<Rightarrow> (unit result \<times> machine) option" where
  "stageDependencies recur [] s = Some (Inr (), s)"
| "stageDependencies recur (serviceDependencyName # rest) s =
     (case getService serviceDependencyName s of
        Inl e \<Rightarrow> Some (Inl e, s)
      | Inr (m, service) \<Rightarrow>
          (case recur service s of
             None \<Rightarrow> None
           | Some (Inl e, s1) \<Rightarrow> Some (Inl e, s1)
           | Some (Inr _, s1) \<Rightarrow> stageDependencies recur rest (stageStart service s1)))"

primrec stageStartDependenciesIfNeeded ::
  "nat \<Rightarrow> Service \<Rightarrow> machine \<Rightarrow> (unit result \<times> machine) option" where
  "stageStartDependenciesIfNeeded 0 = (\<lambda>service s. None)"
| "stageStartDependenciesIfNeeded (Suc fuel) = (\<lambda>service s.
     case ss_dependencies (s_spec service) of
       None \<Rightarrow> Some (Inr (), s)
     | Some deps \<Rightarrow> stageDependencies (stageStartDependenciesIfNeeded fuel) deps s)"

subsection \<open>Value providers\<close>

text \<open>\<open>String.prototype.split\<close> with a one-character separator.\<close>

fun split_on :: "char \<Rightarrow> string \<Rightarrow> string list" where
  "split_on c [] = [[]]"
| "split_on c (x # xs) =
     (if x = c then [] # split_on c xs
      else (x # hd (split_on c xs)) # tl (split_on c xs))"

text \<open>
  \<open>const [serviceName, providerName] = valueName.split('.')\<close>. A missing second part
  is \<open>undefined\<close>, which as a property key and in a template string reads
  \<open>undefined\<close>. The tests on \<open>values[providerName]\<close> and on
  \<open>valueProviders[providerName]\<close> are tests of truthiness.
\<close>

definition provideValue_try :: "collab \<Rightarrow> string \<Rightarrow> machine \<Rightarrow> jsval result \<times> machine" where
  "provideValue_try W valueName s =
     (let parts = split_on CHR ''.'' valueName;
          serviceName = hd parts;
          providerName = (case tl parts of [] \<Rightarrow> ''undefined'' | p # _ \<Rightarrow> p)
      in case getService serviceName s of
           Inl e \<Rightarrow> (Inl e, s)
         | Inr (m, service) \<Rightarrow>
             (let serviceSpec = s_spec service;
                  static = (case ss_values serviceSpec of
                              None \<Rightarrow> Undefined
                            | Some vs \<Rightarrow> get_property vs providerName);
                  provider = (case ss_valueProviders serviceSpec of
                                None \<Rightarrow> Undefined
                              | Some ps \<Rightarrow> get_property ps providerName);
                  notFound = (Inl (ValueProviderNotFound providerName), s);
                  runProvider = (\<lambda>runnable.
                    case executeStaged W (stageBuildIfNeeded (m_core m) s) of
                      (Inl e, s1) \<Rightarrow> (Inl e, s1)
                    | (Inr _, s1) \<Rightarrow>
                        (case call W (Run (m_core m) runnable (ss_env serviceSpec)) (trace s1) of
                           (res, tr) \<Rightarrow> (res, s1\<lparr>trace := tr\<rparr>)));
                  fromProvider =
                    (case provider of
                       Undefined \<Rightarrow> notFound
                     | Own r \<Rightarrow> if r = [] then notFound else runProvider (JStr r)
                     | Inherited key \<Rightarrow> runProvider (JObject key))
              in case static of
                   Undefined \<Rightarrow> fromProvider
                 | Own v \<Rightarrow> if truthy v then (Inr v, s) else fromProvider
                 | Inherited key \<Rightarrow> (Inr (JObject key), s)))"

definition provideValue :: "collab \<Rightarrow> string \<Rightarrow> machine \<Rightarrow> jsval result \<times> machine" where
  "provideValue W valueName s =
     (case provideValue_try W valueName s of
        (Inl e, s1) \<Rightarrow> (Inl (CouldNotGetValue valueName e), s1)
      | (Inr v, s1) \<Rightarrow> (Inr v, s1))"

subsection \<open>The public operations\<close>

text \<open>
  Each takes the parameters that passed \<open>validateParams\<close>: \<open>params.services\<close> is an
  array of exactly one string, of which the operation reads the first.
\<close>

definition build :: "collab \<Rightarrow> string \<Rightarrow> machine \<Rightarrow> unit result \<times> machine" where
  "build W name s =
     (case getModule name s of
        Inl e \<Rightarrow> (Inl e, s)
      | Inr m \<Rightarrow> executeStaged W (stageBuild (m_core m) s))"

definition start :: "collab \<Rightarrow> nat \<Rightarrow> string \<Rightarrow> machine \<Rightarrow> (unit result \<times> machine) option" where
  "start W fuel name s =
     (case getService name s of
        Inl e \<Rightarrow> Some (Inl e, s)
      | Inr (m, service) \<Rightarrow>
          (case stageStartDependenciesIfNeeded fuel service s of
             None \<Rightarrow> None
           | Some (Inl e, s1) \<Rightarrow> Some (Inl e, s1)
           | Some (Inr _, s1) \<Rightarrow> Some (executeStaged W (stageStart service s1))))"

definition stop :: "collab \<Rightarrow> string \<Rightarrow> machine \<Rightarrow> unit result \<times> machine" where
  "stop W name s =
     (case getService name s of
        Inl e \<Rightarrow> (Inl e, s)
      | Inr (m, service) \<Rightarrow>
          executeStaged W (stageServiceState service (want_status Offline) s))"

definition migrate :: "collab \<Rightarrow> string \<Rightarrow> machine \<Rightarrow> unit result \<times> machine" where
  "migrate W name s =
     (case getModule name s of
        Inl e \<Rightarrow> (Inl e, s)
      | Inr m \<Rightarrow> executeStaged W (stageMigrationsIfNeeded (m_core m) s))"

definition value_op :: "collab \<Rightarrow> string \<Rightarrow> machine \<Rightarrow> unit result \<times> machine" where
  "value_op W valueName s =
     (case provideValue W valueName s of
        (Inl e, s1) \<Rightarrow> (Inl e, s1)
      | (Inr ret, s1) \<Rightarrow> (Inr (), emit (Console (LoggedValue ret)) s1))"

definition run :: "collab \<Rightarrow> string \<Rightarrow> string \<Rightarrow> machine \<Rightarrow> unit result \<times> machine" where
  "run W moduleName runnable s =
     (case getModule moduleName s of
        Inl e \<Rightarrow> (Inl e, s)
      | Inr m \<Rightarrow>
          (case runInteractive W (m_core m) (Command runnable) (trace s) of
             (Inl e, tr) \<Rightarrow> (Inl e, emit (Console (LoggedError e)) (s\<lparr>trace := tr\<rparr>))
           | (Inr _, tr) \<Rightarrow> (Inr (), s\<lparr>trace := tr\<rparr>)))"

text \<open>
  \<open>list\<close>: one line per service. \<open>findServiceProcess\<close> answers with the status of the
  process it found, or \<open>undefined\<close>, which is printed as \<open>Unknown\<close>.
\<close>

fun listServices :: "collab \<Rightarrow> ModuleCore \<Rightarrow> Service list \<Rightarrow> machine \<Rightarrow> unit result \<times> machine" where
  "listServices W m [] s = (Inr (), s)"
| "listServices W m (service # rest) s =
     (case call W (FindServiceProcess service) (trace s) of
        (Inl e, tr) \<Rightarrow> (Inl e, s\<lparr>trace := tr\<rparr>)
      | (Inr status, tr) \<Rightarrow>
          listServices W m rest
            (emit (Console (ListLine (s_name service) (m_name m)
                     (if status = JUndefined \<or> status = JNull then JStr ''Unknown'' else status)
                     (built (state_of s m)) (getNotAppliedMigrations s m)))
               (s\<lparr>trace := tr\<rparr>)))"

fun listModules :: "collab \<Rightarrow> Module list \<Rightarrow> machine \<Rightarrow> unit result \<times> machine" where
  "listModules W [] s = (Inr (), s)"
| "listModules W (m # rest) s =
     (case listServices W (m_core m) (m_services m) s of
        (Inl e, s1) \<Rightarrow> (Inl e, s1)
      | (Inr _, s1) \<Rightarrow> listModules W rest s1)"

definition list_op :: "collab \<Rightarrow> machine \<Rightarrow> unit result \<times> machine" where
  "list_op W s =
     (case getAllModules s of
        Inl e \<Rightarrow> (Inl e, s)
      | Inr ms \<Rightarrow> listModules W ms s)"

text \<open>The operations the driver can ask for, and their dispatch.\<close>

datatype operation =
    Start string
  | Stop string
  | Build string
  | Migrate string
  | Value string
  | ListAll
  | RunCommand string string

fun perform :: "collab \<Rightarrow> nat \<Rightarrow> operation \<Rightarrow> machine \<Rightarrow> (unit result \<times> machine) option" where
  "perform W fuel (Start name) s = start W fuel name s"
| "perform W fuel (Stop name) s = Some (stop W name s)"
| "perform W fuel (Build name) s = Some (build W name s)"
| "perform W fuel (Migrate name) s = Some (migrate W name s)"
| "perform W fuel (Value valueName) s = Some (value_op W valueName s)"
| "perform W fuel ListAll s = Some (list_op W s)"
| "perform W fuel (RunCommand moduleName runnable) s = Some (run W moduleName runnable s)"

subsection \<open>Observations on queues, traces and errors\<close>

text \<open>The service parts of a queue, in queue order.\<close>

fun serviceChanges :: "StagedState list \<Rightarrow> (Service \<times> PartialServiceState) list" where
  "serviceChanges [] = []"
| "serviceChanges (e # es) =
     (case st_service e of
        None \<Rightarrow> serviceChanges es
      | Some p \<Rightarrow> p # serviceChanges es)"




fun is_save :: "event \<Rightarrow> bool" where
  "is_save (SaveState m st) = True"
| "is_save e = False"

text \<open>The error of the default case of the switch in \<open>executeStaged\<close>, also when wrapped.\<close>

fun is_unhandled :: "error \<Rightarrow> bool" where
  "is_unhandled (UnhandledStatus st) = True"
| "is_unhandled (CouldNotGetValue valueName e) = is_unhandled e"
| "is_unhandled e = False"

fun failed_unhandled :: "'a result \<Rightarrow> bool" where
  "failed_unhandled (Inl e) = is_unhandled e"
| "failed_unhandled (Inr v) = False"

definition status_staged :: "StagedState \<Rightarrow> bool" where
  "status_staged e =
     (case st_service e of
        None \<Rightarrow> True
      | Some (service, st) \<Rightarrow>
          p_processStatus st = Some Online \<or> p_processStatus st = Some Offline)"

definition queue_ok :: "StagedState list \<Rightarrow> bool" where
  "queue_ok q = list_all status_staged q"

subsection \<open>A small project\<close>

text \<open>
  Module \<open>db\<close> has a build action and three migrations and owns service \<open>C\<close>; module
  \<open>app\<close> owns \<open>B\<close>, which depends on \<open>C\<close>, and \<open>A\<close>, which depends on \<open>B\<close>.
\<close>

definition demo_db :: ModuleCore where
  "demo_db = \<lparr>m_ref = 0, m_name = ''db'',
     m_spec = \<lparr>ms_name = ''db'', ms_build = Some (Command ''make''),
       ms_migrations = Some [(''m2'', Command ''two''), (''m1'', Command ''one''),
                             (''m3'', Command ''three'')]\<rparr>\<rparr>"

definition demo_app :: ModuleCore where
  "demo_app = \<lparr>m_ref = 1, m_name = ''app'',
     m_spec = \<lparr>ms_name = ''app'', ms_build = None, ms_migrations = None\<rparr>\<rparr>"

definition demo_C :: Service where
  "demo_C = \<lparr>s_module = demo_db, s_name = ''C'',
     s_spec = \<lparr>ss_name = ''C'', ss_env = [], ss_dependencies = None,
       ss_valueProviders = None,
       ss_values = Some [(''port'', JNum 5432), (''debug'', JBool False)]\<rparr>\<rparr>"

definition demo_B :: Service where
  "demo_B = \<lparr>s_module = demo_app, s_name = ''B'',
     s_spec = \<lparr>ss_name = ''B'', ss_env = [], ss_dependencies = Some [''C''],
       ss_valueProviders = None, ss_values = None\<rparr>\<rparr>"

definition demo_A :: Service where
  "demo_A = \<lparr>s_module = demo_app, s_name = ''A'',
     s_spec = \<lparr>ss_name = ''A'', ss_env = [], ss_dependencies = Some [''B''],
       ss_valueProviders = None, ss_values = None\<rparr>\<rparr>"

definition fresh_state :: ModuleState where
  "fresh_state = \<lparr>ranMigrations = [], ranAllMigrations = False, built = False\<rparr>"

definition demo_modules :: "Module list" where
  "demo_modules = [\<lparr>m_core = demo_db, m_services = [demo_C]\<rparr>,
                   \<lparr>m_core = demo_app, m_services = [demo_B, demo_A]\<rparr>]"

definition demo :: machine where
  "demo = \<lparr>modules = Some demo_modules, mstate = (\<lambda>r. fresh_state),
           stagedStates = [], trace = []\<rparr>"


text \<open>Before \<open>init\<close>: \<open>this.modules\<close> is undefined.\<close>

definition uninitialized :: machine where
  "uninitialized = \<lparr>modules = None, mstate = (\<lambda>r. fresh_state),
                    stagedStates = [], trace = []\<rparr>"

text \<open>
  Collaborators for which every call succeeds, and for which running one command
  fails (and every other call succeeds).
\<close>

definition all_succeed :: collab where
  "all_succeed tr a = Inr JUndefined"

fun fails_on :: "string \<Rightarrow> collab" where
  "fails_on command tr (RunInteractive m c) =
     (if c = command then Inl ''exit code 1'' else Inr JUndefined)"
| "fails_on command tr a = Inr JUndefined"

text \<open>
  A module that ran its only migration \<open>m0\<close>, so that \<open>ranAllMigrations\<close> was set, and
  then had \<open>m1\<close>, \<open>m2\<close> and \<open>m3\<close> declared.
\<close>

definition grown_db :: ModuleCore where
  "grown_db = \<lparr>m_ref = 0, m_name = ''db'',
     m_spec = \<lparr>ms_name = ''db'', ms_build = Some (Command ''make''),
       ms_migrations = Some [(''m0'', Command ''zero''), (''m1'', Command ''one''),
                             (''m2'', Command ''two''), (''m3'', Command ''three'')]\<rparr>\<rparr>"

definition grown :: machine where
  "grown = \<lparr>modules = Some [\<lparr>m_core = grown_db, m_services = []\<rparr>],
            mstate = (\<lambda>r. \<lparr>ranMigrations = [''m0''], ranAllMigrations = True, built = True\<rparr>),
            stagedStates = [], trace = []\<rparr>"

text \<open>The project after every migration of \<open>db\<close> has run and \<open>db\<close> is built.\<close>

definition demo_migrated :: machine where
  "demo_migrated = demo\<lparr>mstate := (\<lambda>r. \<lparr>ranMigrations = [''m1'', ''m2'', ''m3''],
       ranAllMigrations = True, built = True\<rparr>)\<rparr>"

text \<open>The line \<open>Migrating\<close> is printed when the loop of \<open>runMigrate\<close> takes up an id.\<close>

fun is_migrating :: "event \<Rightarrow> bool" where
  "is_migrating (Console (Migrating migId)) = True"
| "is_migrating e = False"

section \<open>Properties\<close>

subsection \<open>What the parts leave alone\<close>

lemma stagedStates_emit [simp]: "stagedStates (emit e s) = stagedStates s"
  and modules_emit [simp]: "modules (emit e s) = modules s"
  and mstate_emit [simp]: "mstate (emit e s) = mstate s"
  and trace_emit [simp]: "trace (emit e s) = trace s @ [e]"
  by (simp_all add: emit_def)

lemma stagedStates_set_state [simp]: "stagedStates (set_state m st s) = stagedStates s"
  and modules_set_state [simp]: "modules (set_state m st s) = modules s"
  and trace_set_state [simp]: "trace (set_state m st s) = trace s"
  and mstate_set_state [simp]: "mstate (set_state m st s) = (mstate s)(m_ref m := st)"
  by (simp_all add: set_state_def)

text \<open>Applying staged states changes neither the queue nor the registry.\<close>

lemma runBuild_frame:
  "runBuild W m s = (r, s') \<Longrightarrow> stagedStates s' = stagedStates s \<and> modules s' = modules s"
  by (auto simp: runBuild_def Let_def split: option.splits prod.splits sum.splits if_splits)

lemma migrateEach_frame:
  "migrateEach W m migs ids s = (r, s') \<Longrightarrow> stagedStates s' = stagedStates s \<and> modules s' = modules s"
proof (induction ids arbitrary: s)
  case Nil
  then show ?case by simp
next
  case (Cons migId rest)
  then show ?case
    by (fastforce simp: Let_def split: option.splits prod.splits sum.splits)
qed

lemma runMigrate_frame:
  "runMigrate W m s = (r, s') \<Longrightarrow> stagedStates s' = stagedStates s \<and> modules s' = modules s"
  by (auto simp: runMigrate_def Let_def split: option.splits prod.splits sum.splits if_splits
      dest: migrateEach_frame)

lemma applyModuleState_frame:
  "applyModuleState W p s = (r, s') \<Longrightarrow> stagedStates s' = stagedStates s \<and> modules s' = modules s"
  by (auto simp: applyModuleState_def Let_def split: option.splits prod.splits sum.splits if_splits
      dest!: runMigrate_frame runBuild_frame)

lemma applyServiceState_frame:
  "applyServiceState W p s = (r, s') \<Longrightarrow> stagedStates s' = stagedStates s \<and> modules s' = modules s"
  by (auto simp: applyServiceState_def Let_def
      split: option.splits prod.splits sum.splits ServiceProcessStatus.splits)

lemma applyStaged_frame:
  "applyStaged W e s = (r, s') \<Longrightarrow> stagedStates s' = stagedStates s \<and> modules s' = modules s"
  by (auto simp: applyStaged_def split: option.splits prod.splits sum.splits
      dest!: applyModuleState_frame applyServiceState_frame)

lemma executeEach_frame:
  "executeEach W q s = (r, s') \<Longrightarrow> stagedStates s' = stagedStates s \<and> modules s' = modules s"
proof (induction q arbitrary: s)
  case Nil
  then show ?case by simp
next
  case (Cons e q)
  then show ?case
    by (fastforce split: prod.splits sum.splits dest!: applyStaged_frame)
qed

subsection \<open>What a run prints\<close>

lemma runInteractive_filter:
  assumes P: "\<And>m c. \<not> P (Call (RunInteractive m c))" "\<And>m f. \<not> P (Call (RunFn m f))"
  shows "filter P (snd (runInteractive W m r tr)) = filter P tr"
    and "filter P (snd (runInteractive_each W m rs tr)) = filter P tr"
proof (induction W m r tr and W m rs tr rule: runInteractive_runInteractive_each.induct)
  case (1 W m rs tr)
  then show ?case by simp
next
  case (2 W m f tr)
  then show ?case by (simp add: call_def P split: sum.splits)
next
  case (3 W m c tr)
  then show ?case by (simp add: call_def P split: sum.splits)
next
  case (4 W m tr)
  then show ?case by simp
next
  case (5 W m r rs tr)
  then show ?case
    by (auto split: prod.splits sum.splits)
qed


lemma runInteractive_saves:
  "runInteractive W m r tr = (res, tr') \<Longrightarrow> filter is_save tr' = filter is_save tr"
  using runInteractive_filter(1) [of is_save W m r tr] by simp








subsection \<open>The queue\<close>




subsection \<open>Pending migrations\<close>

lemma sorted_difference: "sorted xs \<Longrightarrow> sorted (difference xs ys)"
  by (simp add: difference_def sorted_wrt_filter)

lemma distinct_difference: "distinct xs \<Longrightarrow> distinct (difference xs ys)"
  by (simp add: difference_def)

lemma set_difference: "set (difference xs ys) = set xs - set ys"
  by (auto simp: difference_def)

text \<open>
  C4. For every module, the pending migrations are a lexicographically sorted sequence
  without duplicates whose elements are exactly the declared migration ids that are not
  in \<open>state.ranMigrations\<close>; a module that declares no migrations map has none.
\<close>

theorem C4_getNotAppliedMigrations:
  "sorted (getNotAppliedMigrations s m)
   \<and> distinct (getNotAppliedMigrations s m)
   \<and> set (getNotAppliedMigrations s m) =
       (case ms_migrations (m_spec m) of None \<Rightarrow> {} | Some migs \<Rightarrow> fst ` set migs)
         - set (ranMigrations (state_of s m))
   \<and> getNotAppliedMigrations s (m\<lparr>m_spec := (m_spec m)\<lparr>ms_migrations := None\<rparr>\<rparr>) = []"
  by (cases "ms_migrations (m_spec m)")
     (simp_all add: getNotAppliedMigrations_def Object_keys_def
        sorted_difference distinct_difference set_difference)

subsection \<open>Before initialization\<close>

text \<open>
  C9. While the registry is not initialized, each of start, stop, build, migrate, value
  and list fails with the error \<open>Modules not initialized\<close> (for value, inside the
  message that names the requested identifier), and the machine is as before: nothing
  is staged and no effect runs.
\<close>

theorem C9_not_initialized:
  "modules s = None \<Longrightarrow>
     start W fuel name s = Some (Inl ModulesNotInitialized, s)
   \<and> stop W name s = (Inl ModulesNotInitialized, s)
   \<and> build W name s = (Inl ModulesNotInitialized, s)
   \<and> migrate W name s = (Inl ModulesNotInitialized, s)
   \<and> value_op W valueName s = (Inl (CouldNotGetValue valueName ModulesNotInitialized), s)
   \<and> message (CouldNotGetValue valueName ModulesNotInitialized)
       = ''Could not get '' @ valueName @ '' value: Modules not initialized''
   \<and> list_op W s = (Inl ModulesNotInitialized, s)"
  by (simp add: start_def stop_def build_def migrate_def value_op_def list_op_def
        provideValue_def provideValue_try_def getService_def getModule_def getAllModules_def Let_def)

theorem C9_not_initialized_witness:
  "modules uninitialized = None
   \<and> start all_succeed 0 ''A'' uninitialized = Some (Inl ModulesNotInitialized, uninitialized)
   \<and> stop all_succeed ''A'' uninitialized = (Inl ModulesNotInitialized, uninitialized)
   \<and> build all_succeed ''db'' uninitialized = (Inl ModulesNotInitialized, uninitialized)
   \<and> migrate all_succeed ''db'' uninitialized = (Inl ModulesNotInitialized, uninitialized)
   \<and> value_op all_succeed ''C.port'' uninitialized
       = (Inl (CouldNotGetValue ''C.port'' ModulesNotInitialized), uninitialized)
   \<and> list_op all_succeed uninitialized = (Inl ModulesNotInitialized, uninitialized)"
proof -
  have h: "modules uninitialized = None" by (simp add: uninitialized_def)
  show ?thesis
    using h C9_not_initialized [OF h, of all_succeed 0 "''A''" "''C.port''"]
      C9_not_initialized [OF h, of all_succeed 0 "''db''" "''C.port''"]
    by simp
qed

subsection \<open>Migrate with nothing pending\<close>

text \<open>
  C8. For a module whose pending migrations are empty, migrate stages nothing: it does
  what applying the queue as it stands does, and on the empty queue of a context of its
  own it returns with the machine unchanged (no runnable run, nothing persisted,
  \<open>ranMigrations\<close> and \<open>ranAllMigrations\<close> as before).
\<close>

theorem C8_migrate_nothing_pending:
  assumes "getModule name s = Inr found"
    and "getNotAppliedMigrations s (m_core found) = []"
  shows "migrate W name s = executeStaged W s
         \<and> (stagedStates s = [] \<longrightarrow> migrate W name s = (Inr (), s))"
  using assms by (simp add: migrate_def stageMigrationsIfNeeded_def executeStaged_def)

theorem C8_migrate_nothing_pending_witness:
  "getModule ''db'' demo_migrated = Inr \<lparr>m_core = demo_db, m_services = [demo_C]\<rparr>
   \<and> getNotAppliedMigrations demo_migrated demo_db = []
   \<and> stagedStates demo_migrated = []
   \<and> migrate all_succeed ''db'' demo_migrated = (Inr (), demo_migrated)"
proof -
  have m: "getModule ''db'' demo_migrated = Inr \<lparr>m_core = demo_db, m_services = [demo_C]\<rparr>"
    by (simp add: getModule_def getAllModules_def demo_migrated_def demo_def demo_modules_def
          demo_db_def)
  have p: "getNotAppliedMigrations demo_migrated demo_db = []"
    by code_simp
  have q: "stagedStates demo_migrated = []"
    by (simp add: demo_migrated_def demo_def)
  from p have p': "getNotAppliedMigrations demo_migrated
                     (m_core \<lparr>m_core = demo_db, m_services = [demo_C]\<rparr>) = []"
    by simp
  show ?thesis
    using C8_migrate_nothing_pending [OF m p', of all_succeed] m p q by blast
qed

subsection \<open>Build\<close>

text \<open>
  The tests \<open>!module.spec.build\<close> are tests of truthiness: a build action that is the
  empty string counts as none.
\<close>

lemma empty_build_is_no_build:
  assumes "ms_build (m_spec m) = Some (Command [])"
  shows "runBuild W m s = (Inl NoBuildAction, s)" and "stageBuildIfNeeded m s = s"
  using assms by (simp_all add: runBuild_def stageBuildIfNeeded_def)

text \<open>
  C2 fails as stated: the build operation stages through \<open>stageBuild\<close>, which sets
  \<open>state.built\<close> to false before it stages the build. In the small project the first
  call runs \<open>make\<close> and leaves \<open>built\<close> true; the second call runs \<open>make\<close> again,
  on the same context and on a context of its own alike.
\<close>

theorem C2_build_twice_runs_twice:
  "built (state_of (snd (build all_succeed ''db'' demo)) demo_db)
   \<and> count_list (trace (snd (build all_succeed ''db'' demo)))
        (Call (RunInteractive demo_db ''make'')) = 1
   \<and> count_list (trace (snd (build all_succeed ''db'' (snd (build all_succeed ''db'' demo)))))
        (Call (RunInteractive demo_db ''make'')) = 2
   \<and> count_list (trace (snd (build all_succeed ''db''
           ((snd (build all_succeed ''db'' demo))\<lparr>stagedStates := []\<rparr>))))
        (Call (RunInteractive demo_db ''make'')) = 2"
  by code_simp

text \<open>
  C2, amended. For every module with a declared build action, a call of the build
  operation on a context of its own sets \<open>state.built\<close> to false and runs the build
  runnable once, whatever \<open>state.built\<close> was before the call: when the runnable
  succeeds, \<open>built = true\<close> is set and persisted; when it fails, the error is returned,
  \<open>built\<close> is left false and nothing is persisted. So two calls in sequence run the
  build runnable twice. The build-if-needed staging, which start and the value
  resolution use, stages nothing for a module whose \<open>built\<close> is true.
\<close>

theorem C2_build_runs_every_time:
  assumes "getModule name s = Inr found"
    and "ms_build (m_spec (m_core found)) = Some r"
    and "truthy_runnable r"
    and "stagedStates s = []"
  shows "build W name s =
           (case runInteractive W (m_core found) r
                   (trace s @ [Console (ApplyingModuleState (m_core found) want_built)]) of
              (Inl e, tr) \<Rightarrow>
                (Inl e,
                 s\<lparr>mstate := (mstate s)(m_ref (m_core found) :=
                                  (state_of s (m_core found))\<lparr>built := False\<rparr>),
                   stagedStates := [\<lparr>st_service = None, st_module = Some (m_core found, want_built)\<rparr>],
                   trace := tr\<rparr>)
            | (Inr u, tr) \<Rightarrow>
                (Inr (),
                 s\<lparr>mstate := (mstate s)(m_ref (m_core found) :=
                                  (state_of s (m_core found))\<lparr>built := True\<rparr>),
                   stagedStates := [\<lparr>st_service = None, st_module = Some (m_core found, want_built)\<rparr>],
                   trace := tr @ [SaveState (m_core found)
                                    ((state_of s (m_core found))\<lparr>built := True\<rparr>)]\<rparr>))
         \<and> (built (state_of s m) \<longrightarrow> stageBuildIfNeeded m s = s)"
proof -
  let ?m = "m_core found"
  let ?tr0 = "trace s @ [Console (ApplyingModuleState ?m want_built)]"
  obtain res tr where run: "runInteractive W ?m r ?tr0 = (res, tr)"
    by (cases "runInteractive W ?m r ?tr0")
  have "build W name s =
           (case (res, tr) of
              (Inl e, tr) \<Rightarrow>
                (Inl e,
                 s\<lparr>mstate := (mstate s)(m_ref ?m := (state_of s ?m)\<lparr>built := False\<rparr>),
                   stagedStates := [\<lparr>st_service = None, st_module = Some (?m, want_built)\<rparr>],
                   trace := tr\<rparr>)
            | (Inr u, tr) \<Rightarrow>
                (Inr (),
                 s\<lparr>mstate := (mstate s)(m_ref ?m := (state_of s ?m)\<lparr>built := True\<rparr>),
                   stagedStates := [\<lparr>st_service = None, st_module = Some (?m, want_built)\<rparr>],
                   trace := tr @ [SaveState ?m ((state_of s ?m)\<lparr>built := True\<rparr>)]\<rparr>))"
    using assms run
    by (cases res)
       (simp_all add: build_def stageBuild_def stageModuleState_def executeStaged_def
          applyStaged_def applyModuleState_def runBuild_def want_built_def state_of_def
          set_state_def emit_def Let_def)
  moreover have "built (state_of s m) \<longrightarrow> stageBuildIfNeeded m s = s"
    by (simp add: stageBuildIfNeeded_def)
  ultimately show ?thesis
    using run by simp
qed

theorem C2_build_runs_every_time_witness:
  "built (state_of demo_migrated demo_db)
   \<and> stageBuildIfNeeded demo_db demo_migrated = demo_migrated
   \<and> fst (build all_succeed ''db'' demo_migrated) = Inr ()
   \<and> trace (snd (build all_succeed ''db'' demo_migrated)) =
       [Console (ApplyingModuleState demo_db want_built),
        Call (RunInteractive demo_db ''make''),
        SaveState demo_db (state_of demo_migrated demo_db)]
   \<and> fst (build (fails_on ''make'') ''db'' demo_migrated) = Inl (External ''exit code 1'')
   \<and> trace (snd (build (fails_on ''make'') ''db'' demo_migrated)) =
       [Console (ApplyingModuleState demo_db want_built),
        Call (RunInteractive demo_db ''make'')]
   \<and> \<not> built (state_of (snd (build (fails_on ''make'') ''db'' demo_migrated)) demo_db)"
proof -
  let ?found = "\<lparr>m_core = demo_db, m_services = [demo_C]\<rparr>"
  have m: "getModule ''db'' demo_migrated = Inr ?found"
    by (simp add: getModule_def getAllModules_def demo_migrated_def demo_def demo_modules_def
          demo_db_def)
  have b: "ms_build (m_spec (m_core ?found)) = Some (Command ''make'')"
    by (simp add: demo_db_def)
  have c: "truthy_runnable (Command ''make'')"
    by simp
  have q: "stagedStates demo_migrated = []"
    by (simp add: demo_migrated_def demo_def)
  have r: "runInteractive all_succeed (m_core ?found) (Command ''make'')
             (trace demo_migrated @ [Console (ApplyingModuleState (m_core ?found) want_built)])
           = (Inr (), [Console (ApplyingModuleState demo_db want_built),
                       Call (RunInteractive demo_db ''make'')])"
    by (simp add: call_def all_succeed_def demo_migrated_def demo_def)
  have f: "runInteractive (fails_on ''make'') (m_core ?found) (Command ''make'')
             (trace demo_migrated @ [Console (ApplyingModuleState (m_core ?found) want_built)])
           = (Inl (External ''exit code 1''),
              [Console (ApplyingModuleState demo_db want_built),
               Call (RunInteractive demo_db ''make'')])"
    by (simp add: call_def demo_migrated_def demo_def)
  have t: "built (state_of demo_migrated demo_db)"
    by (simp add: state_of_def demo_migrated_def)
  have u: "(state_of demo_migrated demo_db)\<lparr>built := True\<rparr> = state_of demo_migrated demo_db"
    by (simp add: state_of_def demo_migrated_def)
  show ?thesis
    using C2_build_runs_every_time [OF m b c q, of all_succeed demo_db]
      C2_build_runs_every_time [OF m b c q, of "fails_on ''make''" demo_db]
      r f t u
    by (simp add: state_of_def)
qed

subsection \<open>A migration that fails\<close>

lemma runInteractive_migrating:
  "runInteractive W m r tr = (res, tr') \<Longrightarrow> filter is_migrating tr' = filter is_migrating tr"
  using runInteractive_filter(1) [of is_migrating W m r tr] by simp

text \<open>
  C3 fails as stated where it says that \<open>ranAllMigrations\<close> remains false. The flag is
  written in one place, after a batch that ran to its end, and nothing sets it back.
  Module \<open>db\<close> ran \<open>m0\<close> when that was its only migration and then had \<open>m1\<close>, \<open>m2\<close>
  and \<open>m3\<close> declared: they are pending, \<open>m2\<close> fails, and afterwards
  \<open>ranAllMigrations\<close> is true, in the state and in what was persisted after \<open>m1\<close>.
\<close>

theorem C3_flag_stays_true:
  "getNotAppliedMigrations grown grown_db = [''m1'', ''m2'', ''m3'']
   \<and> fst (runMigrate (fails_on ''two'') grown_db grown) = Inl (External ''exit code 1'')
   \<and> state_of (snd (runMigrate (fails_on ''two'') grown_db grown)) grown_db
       = \<lparr>ranMigrations = [''m0'', ''m1''], ranAllMigrations = True, built = True\<rparr>
   \<and> filter is_save (trace (snd (runMigrate (fails_on ''two'') grown_db grown)))
       = [SaveState grown_db
            \<lparr>ranMigrations = [''m0'', ''m1''], ranAllMigrations = True, built = True\<rparr>]"
  by code_simp

text \<open>
  C3, amended. Pending migrations \<open>[m1, m2, m3]\<close> and the runnable of \<open>m1\<close> succeeds.
  If that of \<open>m2\<close> fails with \<open>e\<close>, then \<open>runMigrate\<close> fails with \<open>e\<close>;
  \<open>ranMigrations\<close> is what it was plus \<open>m1\<close>; \<open>ranAllMigrations\<close> is what it was
  before the call (false if it was false); the migrations taken up are \<open>m1\<close> and \<open>m2\<close>
  and no other; and the state was persisted once, after \<open>m1\<close>. If those of \<open>m2\<close> and
  \<open>m3\<close> succeed as well, the state is persisted after each migration and only then
  \<open>ranAllMigrations\<close> is set to true and persisted.
\<close>

theorem C3_migration_fails_midway:
  assumes "ms_migrations (m_spec m) = Some migs"
    and "getNotAppliedMigrations s m = [m1, m2, m3]"
    and "map_of migs m1 = Some r1"
    and "map_of migs m2 = Some r2"
    and "map_of migs m3 = Some r3"
    and "st1 = (state_of s m)\<lparr>ranMigrations := ranMigrations (state_of s m) @ [m1]\<rparr>"
    and "st2 = (state_of s m)\<lparr>ranMigrations := ranMigrations (state_of s m) @ [m1, m2]\<rparr>"
    and "st3 = (state_of s m)\<lparr>ranMigrations := ranMigrations (state_of s m) @ [m1, m2, m3]\<rparr>"
    and "runInteractive W m r1 (trace s @ [Console (Migrating m1)]) = (Inr (), tr1)"
  shows "(runInteractive W m r2 (tr1 @ [SaveState m st1, Console (Migrating m2)]) = (Inl e, tr2)
          \<longrightarrow>
          runMigrate W m s =
            (Inl e, s\<lparr>mstate := (mstate s)(m_ref m := st1),
                      trace := tr2 @ [Console (MigrationFailed m2)]\<rparr>)
          \<and> ranMigrations st1 = ranMigrations (state_of s m) @ [m1]
          \<and> ranAllMigrations st1 = ranAllMigrations (state_of s m)
          \<and> filter is_migrating (tr2 @ [Console (MigrationFailed m2)])
              = filter is_migrating (trace s) @ [Console (Migrating m1), Console (Migrating m2)]
          \<and> filter is_save (tr2 @ [Console (MigrationFailed m2)])
              = filter is_save (trace s) @ [SaveState m st1])
       \<and> (runInteractive W m r2 (tr1 @ [SaveState m st1, Console (Migrating m2)]) = (Inr (), tr2)
          \<and> runInteractive W m r3 (tr2 @ [SaveState m st2, Console (Migrating m3)]) = (Inr (), tr3)
          \<longrightarrow>
          runMigrate W m s =
            (Inr (), s\<lparr>mstate := (mstate s)(m_ref m := st3\<lparr>ranAllMigrations := True\<rparr>),
                      trace := tr3 @ [SaveState m st3,
                                      SaveState m (st3\<lparr>ranAllMigrations := True\<rparr>),
                                      Console AllMigrationsApplied]\<rparr>)
          \<and> filter is_save (tr3 @ [SaveState m st3,
                                    SaveState m (st3\<lparr>ranAllMigrations := True\<rparr>),
                                    Console AllMigrationsApplied])
              = filter is_save (trace s)
                @ [SaveState m st1, SaveState m st2, SaveState m st3,
                   SaveState m (st3\<lparr>ranAllMigrations := True\<rparr>)])"
proof -
  have failing: "runMigrate W m s =
            (Inl e, s\<lparr>mstate := (mstate s)(m_ref m := st1),
                      trace := tr2 @ [Console (MigrationFailed m2)]\<rparr>)
          \<and> ranMigrations st1 = ranMigrations (state_of s m) @ [m1]
          \<and> ranAllMigrations st1 = ranAllMigrations (state_of s m)
          \<and> filter is_migrating (tr2 @ [Console (MigrationFailed m2)])
              = filter is_migrating (trace s) @ [Console (Migrating m1), Console (Migrating m2)]
          \<and> filter is_save (tr2 @ [Console (MigrationFailed m2)])
              = filter is_save (trace s) @ [SaveState m st1]"
    if fail2: "runInteractive W m r2 (tr1 @ [SaveState m st1, Console (Migrating m2)]) = (Inl e, tr2)"
  proof -
    have saves: "filter is_save (tr2 @ [Console (MigrationFailed m2)])
               = filter is_save (trace s) @ [SaveState m st1]"
      using runInteractive_saves [OF assms(9)] runInteractive_saves [OF fail2] by simp
    have started: "filter is_migrating (tr2 @ [Console (MigrationFailed m2)])
               = filter is_migrating (trace s) @ [Console (Migrating m1), Console (Migrating m2)]"
      using runInteractive_migrating [OF assms(9)] runInteractive_migrating [OF fail2] by simp
    have run: "runMigrate W m s =
             (Inl e, s\<lparr>mstate := (mstate s)(m_ref m := st1),
                       trace := tr2 @ [Console (MigrationFailed m2)]\<rparr>)"
      using assms(1-4,6,9) fail2
      by (simp add: runMigrate_def Let_def state_of_def set_state_def emit_def)
    show ?thesis
      using saves started run assms(6) by simp
  qed
  have succeeding: "runMigrate W m s =
            (Inr (), s\<lparr>mstate := (mstate s)(m_ref m := st3\<lparr>ranAllMigrations := True\<rparr>),
                      trace := tr3 @ [SaveState m st3,
                                      SaveState m (st3\<lparr>ranAllMigrations := True\<rparr>),
                                      Console AllMigrationsApplied]\<rparr>)
          \<and> filter is_save (tr3 @ [SaveState m st3,
                                    SaveState m (st3\<lparr>ranAllMigrations := True\<rparr>),
                                    Console AllMigrationsApplied])
              = filter is_save (trace s)
                @ [SaveState m st1, SaveState m st2, SaveState m st3,
                   SaveState m (st3\<lparr>ranAllMigrations := True\<rparr>)]"
    if ok2: "runInteractive W m r2 (tr1 @ [SaveState m st1, Console (Migrating m2)]) = (Inr (), tr2)"
      and ok3: "runInteractive W m r3 (tr2 @ [SaveState m st2, Console (Migrating m3)]) = (Inr (), tr3)"
  proof -
    have saves: "filter is_save (tr3 @ [SaveState m st3,
                                    SaveState m (st3\<lparr>ranAllMigrations := True\<rparr>),
                                    Console AllMigrationsApplied])
              = filter is_save (trace s)
                @ [SaveState m st1, SaveState m st2, SaveState m st3,
                   SaveState m (st3\<lparr>ranAllMigrations := True\<rparr>)]"
      using runInteractive_saves [OF assms(9)] runInteractive_saves [OF ok2]
        runInteractive_saves [OF ok3] by simp
    have run: "runMigrate W m s =
            (Inr (), s\<lparr>mstate := (mstate s)(m_ref m := st3\<lparr>ranAllMigrations := True\<rparr>),
                      trace := tr3 @ [SaveState m st3,
                                      SaveState m (st3\<lparr>ranAllMigrations := True\<rparr>),
                                      Console AllMigrationsApplied]\<rparr>)"
      using assms ok2 ok3
      by (simp add: runMigrate_def Let_def state_of_def set_state_def emit_def)
    show ?thesis
      using saves run by simp
  qed
  show ?thesis
    using failing succeeding by blast
qed

theorem C3_migration_fails_midway_witness:
  "getNotAppliedMigrations demo demo_db = [''m1'', ''m2'', ''m3'']
   \<and> fst (runMigrate (fails_on ''two'') demo_db demo) = Inl (External ''exit code 1'')
   \<and> state_of (snd (runMigrate (fails_on ''two'') demo_db demo)) demo_db
       = \<lparr>ranMigrations = [''m1''], ranAllMigrations = False, built = False\<rparr>
   \<and> trace (snd (runMigrate (fails_on ''two'') demo_db demo))
       = [Console (Migrating ''m1''), Call (RunInteractive demo_db ''one''),
          SaveState demo_db \<lparr>ranMigrations = [''m1''], ranAllMigrations = False, built = False\<rparr>,
          Console (Migrating ''m2''), Call (RunInteractive demo_db ''two''),
          Console (MigrationFailed ''m2'')]
   \<and> fst (runMigrate all_succeed demo_db demo) = Inr ()
   \<and> state_of (snd (runMigrate all_succeed demo_db demo)) demo_db
       = \<lparr>ranMigrations = [''m1'', ''m2'', ''m3''], ranAllMigrations = True, built = False\<rparr>
   \<and> filter is_save (trace (snd (runMigrate all_succeed demo_db demo)))
       = [SaveState demo_db \<lparr>ranMigrations = [''m1''], ranAllMigrations = False, built = False\<rparr>,
          SaveState demo_db
            \<lparr>ranMigrations = [''m1'', ''m2''], ranAllMigrations = False, built = False\<rparr>,
          SaveState demo_db
            \<lparr>ranMigrations = [''m1'', ''m2'', ''m3''], ranAllMigrations = False, built = False\<rparr>,
          SaveState demo_db
            \<lparr>ranMigrations = [''m1'', ''m2'', ''m3''], ranAllMigrations = True, built = False\<rparr>]"
proof -
  let ?migs = "[(''m2'', Command ''two''), (''m1'', Command ''one''), (''m3'', Command ''three'')]"
  let ?st1 = "\<lparr>ranMigrations = [''m1''], ranAllMigrations = False, built = False\<rparr>"
  let ?st2 = "\<lparr>ranMigrations = [''m1'', ''m2''], ranAllMigrations = False, built = False\<rparr>"
  let ?st3 = "\<lparr>ranMigrations = [''m1'', ''m2'', ''m3''], ranAllMigrations = False, built = False\<rparr>"
  let ?tr1 = "[Console (Migrating ''m1''), Call (RunInteractive demo_db ''one'')]"
  let ?tr2 = "?tr1 @ [SaveState demo_db ?st1, Console (Migrating ''m2''),
                      Call (RunInteractive demo_db ''two'')]"
  let ?tr3 = "?tr2 @ [SaveState demo_db ?st2, Console (Migrating ''m3''),
                      Call (RunInteractive demo_db ''three'')]"
  have a: "ms_migrations (m_spec demo_db) = Some ?migs"
    by (simp add: demo_db_def)
  have b: "getNotAppliedMigrations demo demo_db = [''m1'', ''m2'', ''m3'']"
    by code_simp
  have c: "map_of ?migs ''m1'' = Some (Command ''one'')"
    and d: "map_of ?migs ''m2'' = Some (Command ''two'')"
    and d3: "map_of ?migs ''m3'' = Some (Command ''three'')"
    by simp_all
  have f1: "?st1 = (state_of demo demo_db)\<lparr>ranMigrations := ranMigrations (state_of demo demo_db) @ [''m1'']\<rparr>"
    and f2: "?st2 = (state_of demo demo_db)\<lparr>ranMigrations := ranMigrations (state_of demo demo_db) @ [''m1'', ''m2'']\<rparr>"
    and f3: "?st3 = (state_of demo demo_db)\<lparr>ranMigrations := ranMigrations (state_of demo demo_db) @ [''m1'', ''m2'', ''m3'']\<rparr>"
    by (simp_all add: state_of_def demo_def fresh_state_def)
  have g: "runInteractive (fails_on ''two'') demo_db (Command ''one'')
             (trace demo @ [Console (Migrating ''m1'')]) = (Inr (), ?tr1)"
    and g': "runInteractive all_succeed demo_db (Command ''one'')
             (trace demo @ [Console (Migrating ''m1'')]) = (Inr (), ?tr1)"
    by (simp_all add: call_def all_succeed_def demo_def)
  have h: "runInteractive (fails_on ''two'') demo_db (Command ''two'')
             (?tr1 @ [SaveState demo_db ?st1, Console (Migrating ''m2'')])
           = (Inl (External ''exit code 1''), ?tr2)"
    by (simp add: call_def)
  have h2: "runInteractive all_succeed demo_db (Command ''two'')
             (?tr1 @ [SaveState demo_db ?st1, Console (Migrating ''m2'')]) = (Inr (), ?tr2)"
    and h3: "runInteractive all_succeed demo_db (Command ''three'')
             (?tr2 @ [SaveState demo_db ?st2, Console (Migrating ''m3'')]) = (Inr (), ?tr3)"
    by (simp_all add: call_def all_succeed_def)
  show ?thesis
    using C3_migration_fails_midway [OF a b c d d3 f1 f2 f3 g,
        of "External ''exit code 1''" ?tr2]
      C3_migration_fails_midway [OF a b c d d3 f1 f2 f3 g', of _ ?tr2 ?tr3]
      h h2 h3 b
    by (simp add: state_of_def)
qed

subsection \<open>Names that are not in the registry\<close>

text \<open>
  A module name that matches nothing gives the error that carries the names of all
  modules; a service name that matches nothing gives an error that carries that name.
\<close>

lemma getModule_not_found:
  assumes "modules s = Some ms"
    and "name \<notin> set (map (\<lambda>m. m_name (m_core m)) ms)"
  shows "getModule name s = Inl (ModuleNotFound name (map (\<lambda>m. m_name (m_core m)) ms))"
proof -
  have "find (\<lambda>m. m_name (m_core m) = name) ms = None"
    using assms(2) by (auto simp: find_None_iff)
  with assms(1) show ?thesis
    by (simp add: getModule_def getAllModules_def)
qed

lemma findService_not_found:
  "serviceName \<notin> set (map s_name (concat (map m_services ms))) \<Longrightarrow>
   findService serviceName ms = Inl (ServiceNotFound serviceName)"
proof (induction ms)
  case Nil
  then show ?case by simp
next
  case (Cons m ms)
  then have "find (\<lambda>service. s_name service = serviceName) (m_services m) = None"
    by (auto simp: find_None_iff)
  with Cons show ?case by simp
qed

text \<open>
  C6, at a name that matches nothing in the small project. \<open>getModule\<close> fails with a
  message that lists the names of all modules; \<open>getService\<close> fails with a message that
  names the requested service only, and lists no known name.
\<close>

theorem C6_getService_names_nothing:
  "getService ''missing'' demo = Inl (ServiceNotFound ''missing'')
   \<and> message (ServiceNotFound ''missing'')
       = ''Service '' @ [CHR 0x22] @ ''missing'' @ [CHR 0x22] @ '' not found.''
   \<and> getModule ''missing'' demo = Inl (ModuleNotFound ''missing'' [''db'', ''app''])
   \<and> message (ModuleNotFound ''missing'' [''db'', ''app''])
       = ''Module '' @ [CHR 0x22] @ ''missing'' @ [CHR 0x22]
           @ '' not found. All discovered modules: db, app''"
  by (simp add: getService_def getModule_def getAllModules_def demo_def demo_modules_def
        demo_db_def demo_app_def demo_A_def demo_B_def demo_C_def)

subsection \<open>Value resolution\<close>

lemma split_on_no_sep: "c \<notin> set xs \<Longrightarrow> split_on c xs = [xs]"
  by (induction xs) auto

lemma split_on_append: "c \<notin> set xs \<Longrightarrow> split_on c (xs @ c # ys) = xs # split_on c ys"
  by (induction xs) auto

lemma split_on_not_Nil: "split_on c xs \<noteq> []"
  by (induction xs) auto

text \<open>
  What holds of the resolution: a static value that is truthy is returned with no
  effect at all, and where neither a static value nor a provider is declared the
  resolution fails with the not-found error inside the message naming the identifier.
\<close>

lemma provideValue_truthy_static:
  assumes "CHR ''.'' \<notin> set serviceName" and "CHR ''.'' \<notin> set providerName"
    and "getService serviceName s = Inr (m, service)"
    and "ss_values (s_spec service) = Some vs"
    and "map_of vs providerName = Some v"
    and "truthy v"
  shows "provideValue W (serviceName @ ''.'' @ providerName) s = (Inr v, s)"
  using assms
  by (simp add: provideValue_def provideValue_try_def Let_def split_on_append split_on_no_sep
        get_property_def)

lemma provideValue_nothing_declared:
  assumes "CHR ''.'' \<notin> set serviceName" and "CHR ''.'' \<notin> set providerName"
    and "providerName \<notin> set Object_prototype"
    and "getService serviceName s = Inr (m, service)"
    and "\<forall>vs. ss_values (s_spec service) = Some vs \<longrightarrow> map_of vs providerName = None"
    and "\<forall>ps. ss_valueProviders (s_spec service) = Some ps \<longrightarrow> map_of ps providerName = None"
  shows "provideValue W (serviceName @ ''.'' @ providerName) s
         = (Inl (CouldNotGetValue (serviceName @ ''.'' @ providerName)
                   (ValueProviderNotFound providerName)), s)"
  using assms
  by (auto simp: provideValue_def provideValue_try_def Let_def split_on_append split_on_no_sep
        get_property_def split: option.splits)

text \<open>
  A name that a plain object inherits is found although nothing declares it: asked
  for \<open>constructor\<close>, the resolution returns what \<open>values\<close> inherits under that name.
\<close>

lemma provideValue_inherited:
  assumes "CHR ''.'' \<notin> set serviceName"
    and "getService serviceName s = Inr (m, service)"
    and "ss_values (s_spec service) = Some vs"
    and "map_of vs ''constructor'' = None"
  shows "provideValue W (serviceName @ ''.constructor'') s = (Inr (JObject ''constructor''), s)"
proof -
  have "split_on CHR ''.'' (serviceName @ CHR ''.'' # ''constructor'')
        = serviceName # split_on CHR ''.'' ''constructor''"
    using assms(1) by (rule split_on_append)
  then have "split_on CHR ''.'' (serviceName @ ''.constructor'') = [serviceName, ''constructor'']"
    by simp
  with assms(2-4) show ?thesis
    by (simp add: provideValue_def provideValue_try_def Let_def get_property_def
          Object_prototype_def)
qed

text \<open>
  C7, at a static value that is declared and is \<open>false\<close>. Service \<open>C\<close> declares the
  static values \<open>port = 5432\<close> and \<open>debug = false\<close> and no value provider. \<open>C.port\<close>
  resolves to the static value; \<open>C.debug\<close> does not: the test of the source is on the
  truthiness of the value, and the resolution fails with \<open>Value provider debug not found\<close>.
\<close>

theorem C7_false_static_value_not_returned:
  "getService ''C'' demo = Inr (\<lparr>m_core = demo_db, m_services = [demo_C]\<rparr>, demo_C)
   \<and> ss_values (s_spec demo_C) = Some [(''port'', JNum 5432), (''debug'', JBool False)]
   \<and> provideValue all_succeed ''C.port'' demo = (Inr (JNum 5432), demo)
   \<and> provideValue all_succeed ''C.debug'' demo
       = (Inl (CouldNotGetValue ''C.debug'' (ValueProviderNotFound ''debug'')), demo)
   \<and> message (CouldNotGetValue ''C.debug'' (ValueProviderNotFound ''debug''))
       = ''Could not get C.debug value: Value provider debug not found''"
  by (simp add: provideValue_def provideValue_try_def getService_def getAllModules_def demo_def
        demo_modules_def demo_C_def Let_def get_property_def Object_prototype_def)

subsection \<open>Staging a start and its dependencies\<close>

lemma serviceChanges_append:
  "serviceChanges (q @ q') = serviceChanges q @ serviceChanges q'"
  by (induction q) (simp_all split: option.splits)

lemma stageModuleState_shape [simp]:
  "modules (stageModuleState m st s) = modules s"
  "mstate (stageModuleState m st s) = mstate s"
  "trace (stageModuleState m st s) = trace s"
  by (simp_all add: stageModuleState_def)

lemma stageModuleState_changes [simp]:
  "serviceChanges (stagedStates (stageModuleState m st s)) = serviceChanges (stagedStates s)"
  by (simp add: stageModuleState_def serviceChanges_append)

lemma stageServiceState_shape [simp]:
  "modules (stageServiceState service st s) = modules s"
  "mstate (stageServiceState service st s) = mstate s"
  "trace (stageServiceState service st s) = trace s"
  by (simp_all add: stageServiceState_def)

lemma stageServiceState_changes [simp]:
  "serviceChanges (stagedStates (stageServiceState service st s))
     = serviceChanges (stagedStates s) @ [(service, st)]"
  by (simp add: stageServiceState_def serviceChanges_append)

lemma stageBuildIfNeeded_shape [simp]:
  "modules (stageBuildIfNeeded m s) = modules s"
  "mstate (stageBuildIfNeeded m s) = mstate s"
  "trace (stageBuildIfNeeded m s) = trace s"
  "serviceChanges (stagedStates (stageBuildIfNeeded m s)) = serviceChanges (stagedStates s)"
  by (simp_all add: stageBuildIfNeeded_def)

lemma stageMigrationsIfNeeded_shape [simp]:
  "modules (stageMigrationsIfNeeded m s) = modules s"
  "mstate (stageMigrationsIfNeeded m s) = mstate s"
  "trace (stageMigrationsIfNeeded m s) = trace s"
  "serviceChanges (stagedStates (stageMigrationsIfNeeded m s)) = serviceChanges (stagedStates s)"
  by (simp_all add: stageMigrationsIfNeeded_def Let_def)

lemma stageStart_shape [simp]:
  "modules (stageStart service s) = modules s"
  "mstate (stageStart service s) = mstate s"
  "trace (stageStart service s) = trace s"
  "serviceChanges (stagedStates (stageStart service s))
     = serviceChanges (stagedStates s) @ [(service, want_status Online)]"
  by (simp_all add: stageStart_def)

lemma getService_modules: "modules s' = modules s \<Longrightarrow> getService n s' = getService n s"
  by (simp add: getService_def getAllModules_def)

lemma getService_stageStart [simp]: "getService n (stageStart service s) = getService n s"
  by (rule getService_modules) simp

lemma no_dependencies:
  assumes "ss_dependencies (s_spec c) = None \<or> ss_dependencies (s_spec c) = Some []"
  shows "stageStartDependenciesIfNeeded (Suc n) c s = Some (Inr (), s)"
proof -
  from assms show ?thesis
  proof
    assume "ss_dependencies (s_spec c) = None"
    then show ?thesis by simp
  next
    assume "ss_dependencies (s_spec c) = Some []"
    then show ?thesis by simp
  qed
qed

lemma one_dependency:
  assumes "ss_dependencies (s_spec x) = Some [d]"
    and "getService d s = Inr (m, y)"
    and "stageStartDependenciesIfNeeded n y s = Some (Inr (), s1)"
  shows "stageStartDependenciesIfNeeded (Suc n) x s = Some (Inr (), stageStart y s1)"
proof -
  have "stageStartDependenciesIfNeeded (Suc n) x s
        = stageDependencies (stageStartDependenciesIfNeeded n) [d] s"
    using assms(1) by simp
  also have "\<dots> = Some (Inr (), stageStart y s1)"
    using assms(2,3) by simp
  finally show ?thesis .
qed


text \<open>
  C1. Service \<open>a\<close> (found under \<open>nameA\<close>) depends on \<open>nameB\<close> only, \<open>b\<close> (found under
  \<open>nameB\<close>) on \<open>nameC\<close> only, and \<open>c\<close> (found under \<open>nameC\<close>) on nothing. Then start
  of \<open>nameA\<close> returns (three nested calls of the dependency staging suffice), and the
  service changes in the queue it leaves are those that were there, followed by the
  start of \<open>c\<close>, then of \<open>b\<close>, then of \<open>a\<close>.
\<close>

theorem C1_chain_start_order:
  assumes "getService nameA s = Inr (mA, a)"
    and "ss_dependencies (s_spec a) = Some [nameB]"
    and "getService nameB s = Inr (mB, b)"
    and "ss_dependencies (s_spec b) = Some [nameC]"
    and "getService nameC s = Inr (mC, c)"
    and "ss_dependencies (s_spec c) = None \<or> ss_dependencies (s_spec c) = Some []"
    and "3 \<le> fuel"
  shows "\<exists>r s'. start W fuel nameA s = Some (r, s')
           \<and> serviceChanges (stagedStates s')
               = serviceChanges (stagedStates s)
                 @ [(c, want_status Online), (b, want_status Online), (a, want_status Online)]"
proof -
  from assms(7) have "fuel = Suc (Suc (Suc (fuel - 3)))" by arith
  then obtain n where fuel: "fuel = Suc (Suc (Suc n))" ..
  let ?s1 = "stageStart c s"
  let ?s2 = "stageStart b ?s1"
  let ?s3 = "stageStart a ?s2"
  have c: "stageStartDependenciesIfNeeded (Suc n) c s = Some (Inr (), s)"
    by (rule no_dependencies [OF assms(6)])
  have b: "stageStartDependenciesIfNeeded (Suc (Suc n)) b s = Some (Inr (), ?s1)"
    by (rule one_dependency [OF assms(4) assms(5) c])
  have a: "stageStartDependenciesIfNeeded fuel a s = Some (Inr (), ?s2)"
    unfolding fuel by (rule one_dependency [OF assms(2) assms(3) b])
  obtain r s' where ex: "executeStaged W ?s3 = (r, s')"
    by (cases "executeStaged W ?s3")
  have "executeEach W (stagedStates ?s3) ?s3 = (r, s')"
    using ex by (simp only: executeStaged_def)
  from executeEach_frame [OF this] have "stagedStates s' = stagedStates ?s3" ..
  then have "serviceChanges (stagedStates s')
               = serviceChanges (stagedStates s)
                 @ [(c, want_status Online), (b, want_status Online), (a, want_status Online)]"
    by simp
  moreover have "start W fuel nameA s = Some (r, s')"
    using assms(1) a ex by (simp add: start_def del: stageStartDependenciesIfNeeded.simps)
  ultimately show ?thesis by blast
qed

theorem C1_chain_start_order_witness:
  "getService ''A'' demo = Inr (\<lparr>m_core = demo_app, m_services = [demo_B, demo_A]\<rparr>, demo_A)
   \<and> ss_dependencies (s_spec demo_A) = Some [''B'']
   \<and> getService ''B'' demo = Inr (\<lparr>m_core = demo_app, m_services = [demo_B, demo_A]\<rparr>, demo_B)
   \<and> ss_dependencies (s_spec demo_B) = Some [''C'']
   \<and> getService ''C'' demo = Inr (\<lparr>m_core = demo_db, m_services = [demo_C]\<rparr>, demo_C)
   \<and> ss_dependencies (s_spec demo_C) = None
   \<and> (\<exists>r s'. start all_succeed 3 ''A'' demo = Some (r, s')
          \<and> serviceChanges (stagedStates s')
              = [(demo_C, want_status Online), (demo_B, want_status Online),
                 (demo_A, want_status Online)])"
proof -
  let ?app = "\<lparr>m_core = demo_app, m_services = [demo_B, demo_A]\<rparr>"
  let ?db = "\<lparr>m_core = demo_db, m_services = [demo_C]\<rparr>"
  have a: "getService ''A'' demo = Inr (?app, demo_A)"
    and b: "getService ''B'' demo = Inr (?app, demo_B)"
    and c: "getService ''C'' demo = Inr (?db, demo_C)"
    by (simp_all add: getService_def getAllModules_def demo_def demo_modules_def
          demo_A_def demo_B_def demo_C_def)
  have da: "ss_dependencies (s_spec demo_A) = Some [''B'']"
    and db: "ss_dependencies (s_spec demo_B) = Some [''C'']"
    and dc: "ss_dependencies (s_spec demo_C) = None"
    by (simp_all add: demo_A_def demo_B_def demo_C_def)
  have dc': "ss_dependencies (s_spec demo_C) = None \<or> ss_dependencies (s_spec demo_C) = Some []"
    using dc by simp
  have f: "(3::nat) \<le> 3" by simp
  have e: "serviceChanges (stagedStates demo) = []"
    by (simp add: demo_def)
  show ?thesis
    using C1_chain_start_order [OF a da b db c dc' f, of all_succeed] a b c da db dc e
    by simp
qed

subsection \<open>The status of a staged service change\<close>

lemma call_handled: "call W a tr = (r, tr') \<Longrightarrow> \<not> failed_unhandled r"
  by (auto simp: call_def split: sum.splits)

lemma runInteractive_handled_aux:
  "\<not> failed_unhandled (fst (runInteractive W m r tr))"
  "\<not> failed_unhandled (fst (runInteractive_each W m rs tr))"
proof (induction W m r tr and W m rs tr rule: runInteractive_runInteractive_each.induct)
  case (1 W m rs tr)
  then show ?case by simp
next
  case (2 W m f tr)
  then show ?case by (simp add: call_def split: sum.splits)
next
  case (3 W m c tr)
  then show ?case by (simp add: call_def split: sum.splits)
next
  case (4 W m tr)
  then show ?case by simp
next
  case (5 W m r rs tr)
  then show ?case by (auto split: prod.splits sum.splits)
qed

lemma runInteractive_handled:
  "runInteractive W m r tr = (res, tr') \<Longrightarrow> \<not> failed_unhandled res"
  using runInteractive_handled_aux(1) [of W m r tr] by simp

lemma runBuild_handled: "runBuild W m s = (r, s') \<Longrightarrow> \<not> failed_unhandled r"
  by (auto simp: runBuild_def Let_def split: option.splits prod.splits sum.splits if_splits
      dest: runInteractive_handled)

lemma migrateEach_handled:
  "migrateEach W m migs ids s = (r, s') \<Longrightarrow> \<not> failed_unhandled r"
proof (induction ids arbitrary: s)
  case Nil
  then show ?case by auto
next
  case (Cons migId rest)
  then show ?case
    by (fastforce simp: Let_def split: option.splits prod.splits sum.splits
        dest: runInteractive_handled)
qed

lemma runMigrate_handled: "runMigrate W m s = (r, s') \<Longrightarrow> \<not> failed_unhandled r"
  by (auto simp: runMigrate_def Let_def split: option.splits prod.splits sum.splits if_splits
      dest: migrateEach_handled)

lemma applyModuleState_handled: "applyModuleState W p s = (r, s') \<Longrightarrow> \<not> failed_unhandled r"
  by (auto simp: applyModuleState_def Let_def split: option.splits prod.splits sum.splits if_splits
      dest: runMigrate_handled runBuild_handled)

lemma applyServiceState_handled:
  assumes "p_processStatus st = Some Online \<or> p_processStatus st = Some Offline"
    and "applyServiceState W (service, st) s = (r, s')"
  shows "\<not> failed_unhandled r"
  using assms
  by (auto simp: applyServiceState_def Let_def call_def split: sum.splits)

lemma applyStaged_handled:
  assumes "status_staged e" and "applyStaged W e s = (r, s')"
  shows "\<not> failed_unhandled r"
proof -
  obtain r1 s1 where m: "(case st_module e of None \<Rightarrow> (Inr (), s)
            | Some p \<Rightarrow> applyModuleState W p s) = (r1, s1)"
    by (cases "case st_module e of None \<Rightarrow> (Inr (), s) | Some p \<Rightarrow> applyModuleState W p s")
  then have r1: "\<not> failed_unhandled r1"
    by (auto split: option.splits dest: applyModuleState_handled)
  show ?thesis
  proof (cases r1)
    case (Inl err)
    with m assms(2) r1 show ?thesis by (simp add: applyStaged_def)
  next
    case (Inr u)
    show ?thesis
    proof (cases "st_service e")
      case None
      with m Inr assms(2) show ?thesis by (auto simp: applyStaged_def)
    next
      case (Some p)
      obtain service st where p: "p = (service, st)" by (cases p)
      from assms(1) Some p
      have ok: "p_processStatus st = Some Online \<or> p_processStatus st = Some Offline"
        by (simp add: status_staged_def)
      from m Inr assms(2) Some p have "applyServiceState W (service, st) s1 = (r, s')"
        by (simp add: applyStaged_def)
      from applyServiceState_handled [OF ok this] show ?thesis .
    qed
  qed
qed

lemma executeEach_handled:
  "list_all status_staged q \<Longrightarrow> executeEach W q s = (r, s') \<Longrightarrow> \<not> failed_unhandled r"
proof (induction q arbitrary: s)
  case Nil
  then show ?case by auto
next
  case (Cons e q)
  obtain r1 s1 where a: "applyStaged W e s = (r1, s1)" by (cases "applyStaged W e s")
  show ?case
  proof (cases r1)
    case (Inl err)
    with a Cons.prems have "r = r1" by simp
    moreover from Cons.prems(1) a have "\<not> failed_unhandled r1"
      by (auto dest: applyStaged_handled)
    ultimately show ?thesis by simp
  next
    case (Inr u)
    with a Cons.prems have "executeEach W q s1 = (r, s')" by simp
    with Cons.IH Cons.prems(1) show ?thesis by simp
  qed
qed

lemma executeStaged_handled:
  assumes "queue_ok (stagedStates s)" and "executeStaged W s = (r, s')"
  shows "queue_ok (stagedStates s') \<and> \<not> failed_unhandled r"
proof -
  from assms(2) have e: "executeEach W (stagedStates s) s = (r, s')"
    by (simp add: executeStaged_def)
  from executeEach_frame [OF e] assms(1) have "queue_ok (stagedStates s')" by simp
  moreover from executeEach_handled [OF _ e] assms(1) have "\<not> failed_unhandled r"
    by (simp add: queue_ok_def)
  ultimately show ?thesis by simp
qed

lemma queue_ok_stageModuleState [simp]:
  "queue_ok (stagedStates (stageModuleState m st s)) = queue_ok (stagedStates s)"
  by (simp add: queue_ok_def stageModuleState_def status_staged_def)

lemma queue_ok_stageServiceState [simp]:
  "queue_ok (stagedStates (stageServiceState service (want_status Online) s))
     = queue_ok (stagedStates s)"
  "queue_ok (stagedStates (stageServiceState service (want_status Offline) s))
     = queue_ok (stagedStates s)"
  by (simp_all add: queue_ok_def stageServiceState_def status_staged_def want_status_def)

lemma queue_ok_stageBuild [simp]:
  "queue_ok (stagedStates (stageBuild m s)) = queue_ok (stagedStates s)"
  by (simp add: stageBuild_def)

lemma queue_ok_stageBuildIfNeeded [simp]:
  "queue_ok (stagedStates (stageBuildIfNeeded m s)) = queue_ok (stagedStates s)"
  by (simp add: stageBuildIfNeeded_def)

lemma queue_ok_stageMigrationsIfNeeded [simp]:
  "queue_ok (stagedStates (stageMigrationsIfNeeded m s)) = queue_ok (stagedStates s)"
  by (simp add: stageMigrationsIfNeeded_def Let_def)

lemma queue_ok_stageStart [simp]:
  "queue_ok (stagedStates (stageStart service s)) = queue_ok (stagedStates s)"
  by (simp add: stageStart_def)

lemma getService_handled: "getService n s = Inl e \<Longrightarrow> \<not> is_unhandled e"
proof -
  have "findService n ms = Inl e \<Longrightarrow> \<not> is_unhandled e" for ms
    by (induction ms) (auto split: option.splits)
  then show "getService n s = Inl e \<Longrightarrow> \<not> is_unhandled e"
    by (auto simp: getService_def getAllModules_def split: option.splits)
qed

lemma getModule_handled: "getModule n s = Inl e \<Longrightarrow> \<not> is_unhandled e"
  by (auto simp: getModule_def getAllModules_def split: option.splits)

lemma stageDependencies_handled:
  assumes recur: "\<And>service t r t'. queue_ok (stagedStates t) \<Longrightarrow> recur service t = Some (r, t')
            \<Longrightarrow> queue_ok (stagedStates t') \<and> \<not> failed_unhandled r"
  shows "queue_ok (stagedStates s) \<Longrightarrow> stageDependencies recur deps s = Some (r, s')
           \<Longrightarrow> queue_ok (stagedStates s') \<and> \<not> failed_unhandled r"
proof (induction deps arbitrary: s)
  case Nil
  then show ?case by auto
next
  case (Cons d deps)
  show ?case
  proof (cases "getService d s")
    case (Inl e)
    with Cons.prems show ?thesis by (auto dest: getService_handled)
  next
    case (Inr found)
    obtain m service where found: "found = (m, service)" by (cases found)
    from Cons.prems(2) Inr found obtain r1 s1 where r1: "recur service s = Some (r1, s1)"
      by (cases "recur service s") auto
    from recur [OF Cons.prems(1) r1]
    have ok1: "queue_ok (stagedStates s1)" and h1: "\<not> failed_unhandled r1" by simp_all
    show ?thesis
    proof (cases r1)
      case (Inl e)
      with Cons.prems(2) Inr found r1 ok1 h1 show ?thesis by auto
    next
      case (Inr u)
      with Cons.prems(2) \<open>getService d s = Inr found\<close> found r1
      have "stageDependencies recur deps (stageStart service s1) = Some (r, s')" by simp
      moreover from ok1 have "queue_ok (stagedStates (stageStart service s1))" by simp
      ultimately show ?thesis using Cons.IH by blast
    qed
  qed
qed

lemma stageStartDependenciesIfNeeded_handled:
  "queue_ok (stagedStates s) \<Longrightarrow> stageStartDependenciesIfNeeded fuel service s = Some (r, s')
     \<Longrightarrow> queue_ok (stagedStates s') \<and> \<not> failed_unhandled r"
proof (induction fuel arbitrary: service s r s')
  case 0
  then show ?case by simp
next
  case (Suc fuel)
  show ?case
  proof (cases "ss_dependencies (s_spec service)")
    case None
    with Suc.prems show ?thesis by auto
  next
    case (Some deps)
    with Suc.prems(2)
    have "stageDependencies (stageStartDependenciesIfNeeded fuel) deps s = Some (r, s')"
      by simp
    from stageDependencies_handled [of "stageStartDependenciesIfNeeded fuel", OF Suc.IH Suc.prems(1) this]
    show ?thesis by simp
  qed
qed

lemma build_handled:
  assumes "queue_ok (stagedStates s)" and "build W name s = (r, s')"
  shows "queue_ok (stagedStates s') \<and> \<not> failed_unhandled r"
proof (cases "getModule name s")
  case (Inl e)
  with assms show ?thesis by (auto simp: build_def dest: getModule_handled)
next
  case (Inr m)
  with assms(2) have "executeStaged W (stageBuild (m_core m) s) = (r, s')"
    by (simp add: build_def)
  from executeStaged_handled [OF _ this] assms(1) show ?thesis by simp
qed

lemma migrate_handled:
  assumes "queue_ok (stagedStates s)" and "migrate W name s = (r, s')"
  shows "queue_ok (stagedStates s') \<and> \<not> failed_unhandled r"
proof (cases "getModule name s")
  case (Inl e)
  with assms show ?thesis by (auto simp: migrate_def dest: getModule_handled)
next
  case (Inr m)
  with assms(2) have "executeStaged W (stageMigrationsIfNeeded (m_core m) s) = (r, s')"
    by (simp add: migrate_def)
  from executeStaged_handled [OF _ this] assms(1) show ?thesis by simp
qed

lemma stop_handled:
  assumes "queue_ok (stagedStates s)" and "stop W name s = (r, s')"
  shows "queue_ok (stagedStates s') \<and> \<not> failed_unhandled r"
proof (cases "getService name s")
  case (Inl e)
  with assms show ?thesis by (auto simp: stop_def dest: getService_handled)
next
  case (Inr found)
  obtain m service where "found = (m, service)" by (cases found)
  with Inr assms(2)
  have "executeStaged W (stageServiceState service (want_status Offline) s) = (r, s')"
    by (simp add: stop_def)
  from executeStaged_handled [OF _ this] assms(1) show ?thesis by simp
qed

lemma start_handled:
  assumes "queue_ok (stagedStates s)" and "start W fuel name s = Some (r, s')"
  shows "queue_ok (stagedStates s') \<and> \<not> failed_unhandled r"
proof (cases "getService name s")
  case (Inl e)
  with assms show ?thesis by (auto simp: start_def dest: getService_handled)
next
  case (Inr found)
  obtain m service where found: "found = (m, service)" by (cases found)
  from assms(2) Inr found obtain r1 s1
    where deps: "stageStartDependenciesIfNeeded fuel service s = Some (r1, s1)"
    by (cases "stageStartDependenciesIfNeeded fuel service s")
       (auto simp: start_def simp del: stageStartDependenciesIfNeeded.simps)
  from stageStartDependenciesIfNeeded_handled [OF assms(1) deps]
  have ok1: "queue_ok (stagedStates s1)" and h1: "\<not> failed_unhandled r1" by simp_all
  show ?thesis
  proof (cases r1)
    case (Inl e)
    with assms(2) \<open>getService name s = Inr found\<close> found deps ok1 h1 show ?thesis
      by (auto simp: start_def simp del: stageStartDependenciesIfNeeded.simps)
  next
    case (Inr u)
    with assms(2) \<open>getService name s = Inr found\<close> found deps
    have "executeStaged W (stageStart service s1) = (r, s')"
      by (simp add: start_def del: stageStartDependenciesIfNeeded.simps)
    from executeStaged_handled [OF _ this] ok1 show ?thesis by simp
  qed
qed

lemma provideValue_try_handled:
  assumes "queue_ok (stagedStates s)" and "provideValue_try W valueName s = (r, s')"
  shows "queue_ok (stagedStates s') \<and> \<not> failed_unhandled r"
proof -
  define parts where "parts = split_on CHR ''.'' valueName"
  define providerName where "providerName = (case tl parts of [] \<Rightarrow> ''undefined'' | p # _ \<Rightarrow> p)"
  show ?thesis
  proof (cases "getService (hd parts) s")
    case (Inl e)
    with assms show ?thesis
      by (auto simp: provideValue_try_def Let_def parts_def dest: getService_handled)
  next
    case (Inr found)
    obtain m service where found: "found = (m, service)" by (cases found)
    define runProvider where "runProvider = (\<lambda>runnable.
      case executeStaged W (stageBuildIfNeeded (m_core m) s) of
        (Inl e, s1) \<Rightarrow> (Inl e, s1)
      | (Inr _, s1) \<Rightarrow>
          (case call W (Run (m_core m) runnable (ss_env (s_spec service))) (trace s1) of
             (res, tr) \<Rightarrow> (res, s1\<lparr>trace := tr\<rparr>)))"
    define fromProvider where "fromProvider =
      (case (case ss_valueProviders (s_spec service) of
               None \<Rightarrow> Undefined | Some ps \<Rightarrow> get_property ps providerName) of
         Undefined \<Rightarrow> (Inl (ValueProviderNotFound providerName), s)
       | Own rn \<Rightarrow>
           if rn = [] then (Inl (ValueProviderNotFound providerName), s)
           else runProvider (JStr rn)
       | Inherited key \<Rightarrow> runProvider (JObject key))"
    have rp: "queue_ok (stagedStates s'') \<and> \<not> failed_unhandled r''"
      if "runProvider runnable = (r'', s'')" for runnable r'' s''
    proof -
      obtain r1 s1 where ex: "executeStaged W (stageBuildIfNeeded (m_core m) s) = (r1, s1)"
        by (cases "executeStaged W (stageBuildIfNeeded (m_core m) s)")
      from executeStaged_handled [OF _ ex] assms(1)
      have ok1: "queue_ok (stagedStates s1)" and h1: "\<not> failed_unhandled r1" by simp_all
      show ?thesis
      proof (cases r1)
        case (Inl e)
        with ex that ok1 h1 show ?thesis by (auto simp: runProvider_def)
      next
        case (Inr u)
        obtain res tr
          where c: "call W (Run (m_core m) runnable (ss_env (s_spec service))) (trace s1) = (res, tr)"
          by (cases "call W (Run (m_core m) runnable (ss_env (s_spec service))) (trace s1)")
        from call_handled [OF c] have "\<not> failed_unhandled res" .
        with ex Inr c that ok1 show ?thesis by (auto simp: runProvider_def)
      qed
    qed
    have fp: "queue_ok (stagedStates s'') \<and> \<not> failed_unhandled r''"
      if "fromProvider = (r'', s'')" for r'' s''
      using that assms(1) rp
      by (auto simp: fromProvider_def split: property.splits if_splits)
    have "provideValue_try W valueName s =
            (case (case ss_values (s_spec service) of
                     None \<Rightarrow> Undefined | Some vs \<Rightarrow> get_property vs providerName) of
               Undefined \<Rightarrow> fromProvider
             | Own v \<Rightarrow> if truthy v then (Inr v, s) else fromProvider
             | Inherited key \<Rightarrow> (Inr (JObject key), s))"
      unfolding fromProvider_def runProvider_def providerName_def parts_def
        provideValue_try_def Let_def
      using Inr found by (simp add: parts_def)
    with assms fp show ?thesis
      by (auto split: property.splits if_splits)
  qed
qed

lemma value_op_handled:
  assumes "queue_ok (stagedStates s)" and "value_op W valueName s = (r, s')"
  shows "queue_ok (stagedStates s') \<and> \<not> failed_unhandled r"
proof -
  obtain r1 s1 where p: "provideValue_try W valueName s = (r1, s1)"
    by (cases "provideValue_try W valueName s")
  from provideValue_try_handled [OF assms(1) p]
  have "queue_ok (stagedStates s1)" and "\<not> failed_unhandled r1" by simp_all
  with assms(2) p show ?thesis
    by (cases r1) (auto simp: value_op_def provideValue_def)
qed

lemma listServices_handled:
  "listServices W m services s = (r, s') \<Longrightarrow>
   stagedStates s' = stagedStates s \<and> \<not> failed_unhandled r"
proof (induction services arbitrary: s)
  case Nil
  then show ?case by auto
next
  case (Cons service rest)
  then show ?case
    by (fastforce simp: call_def split: sum.splits)
qed

lemma listModules_handled:
  "listModules W ms s = (r, s') \<Longrightarrow> stagedStates s' = stagedStates s \<and> \<not> failed_unhandled r"
proof (induction ms arbitrary: s)
  case Nil
  then show ?case by auto
next
  case (Cons m rest)
  then show ?case
    by (fastforce split: prod.splits sum.splits dest!: listServices_handled)
qed

lemma list_op_handled:
  assumes "queue_ok (stagedStates s)" and "list_op W s = (r, s')"
  shows "queue_ok (stagedStates s') \<and> \<not> failed_unhandled r"
  using assms
  by (auto simp: list_op_def getAllModules_def split: option.splits dest!: listModules_handled)

lemma run_handled:
  assumes "queue_ok (stagedStates s)" and "run W moduleName runnable s = (r, s')"
  shows "queue_ok (stagedStates s') \<and> \<not> failed_unhandled r"
  using assms
  by (auto simp: run_def call_def split: sum.splits dest: getModule_handled)

text \<open>
  C10. A queue is in order when every service change in it carries \<open>Online\<close> or
  \<open>Offline\<close>. Every public operation that starts on a queue in order (the empty queue of
  a new context is) and returns leaves a queue in order, and the error it may return is
  not the \<open>Unhandled ServiceProcessStatus\<close> of \<open>executeStaged\<close>, not even wrapped.
\<close>

theorem C10_unhandled_status_unreachable:
  assumes "queue_ok (stagedStates s)" and "perform W fuel operation s = Some (r, s')"
  shows "queue_ok (stagedStates s') \<and> \<not> failed_unhandled r"
proof (cases operation)
  case (Start name)
  with assms start_handled show ?thesis by simp
next
  case (Stop name)
  with assms stop_handled show ?thesis by simp
next
  case (Build name)
  with assms build_handled show ?thesis by simp
next
  case (Migrate name)
  with assms migrate_handled show ?thesis by simp
next
  case (Value valueName)
  with assms value_op_handled show ?thesis by simp
next
  case ListAll
  with assms list_op_handled show ?thesis by simp
next
  case (RunCommand moduleName runnable)
  with assms run_handled show ?thesis by simp
qed

theorem C10_unhandled_status_unreachable_witness:
  "queue_ok (stagedStates demo)
   \<and> perform all_succeed 0 (Stop ''C'') demo = Some (stop all_succeed ''C'' demo)
   \<and> serviceChanges (stagedStates (snd (stop all_succeed ''C'' demo)))
       = [(demo_C, want_status Offline)]
   \<and> queue_ok (stagedStates (snd (stop all_succeed ''C'' demo)))
   \<and> \<not> failed_unhandled (fst (stop all_succeed ''C'' demo))"
proof -
  have q: "queue_ok (stagedStates demo)"
    by (simp add: queue_ok_def demo_def)
  have p: "perform all_succeed 0 (Stop ''C'') demo
           = Some (fst (stop all_succeed ''C'' demo), snd (stop all_succeed ''C'' demo))"
    by simp
  have c: "serviceChanges (stagedStates (snd (stop all_succeed ''C'' demo)))
           = [(demo_C, want_status Offline)]"
    by (simp add: stop_def getService_def getAllModules_def demo_def demo_modules_def demo_C_def
          executeStaged_def stageServiceState_def applyStaged_def applyServiceState_def
          want_status_def call_def all_succeed_def emit_def)
  show ?thesis
    using C10_unhandled_status_unreachable [OF q p] q c by simp
qed

end
